theory Spec2Isabelle
  imports Main "HOL-Library.AList"
begin

section \<open>Export of a note tree to a tar archive (src/services/export/tar.js)\<close>

text \<open>
  The development embeds \<^verbatim>\<open>exportToTar\<close> and its local functions
  \<^verbatim>\<open>getUniqueFilename\<close>, \<^verbatim>\<open>getDataFileName\<close>, \<^verbatim>\<open>getNote\<close>,
  \<^verbatim>\<open>prepareContent\<close> and \<^verbatim>\<open>saveNote\<close>.

  Conventions of the embedding:
  \<^item> A JavaScript string is a list of UTF-16 code units. The model keeps the code units
    below 256 (ISO-8859-1 text), one \<^typ>\<open>char\<close> each, so \<^term>\<open>length s\<close> is
    \<^verbatim>\<open>s.length\<close>. The number of bytes such a string takes in the archive (UTF-8) is
    a different number, \<open>byteLength\<close> below.
  \<^item> The three objects the file uses as dictionaries are modelled with what the
    language does on them. \<^verbatim>\<open>k in obj\<close> holds for the object's own properties and
    for the names it inherits: those of \<^verbatim>\<open>Object.prototype\<close> for the plain objects
    \<^verbatim>\<open>noteIdToMeta\<close> and \<^verbatim>\<open>notePaths\<close> (maps of their own properties), and those
    of \<^verbatim>\<open>Array.prototype\<close> and \<^verbatim>\<open>Object.prototype\<close> for the name table, which is
    the array literal of line 192 (its own properties, array indices among them, and
    its \<^verbatim>\<open>length\<close>). The inherited names are the string-keyed properties of
    ECMAScript 2019.
  \<^item> Objects mutated through a reference are passed in and returned updated.
  \<^item> The libraries the file requires (sanitize-filename, mime-types, html, turndown),
    \<^verbatim>\<open>JSON.stringify\<close> and the text a built-in member converts to are parameters,
    gathered in one record.
  \<^item> Awaiting a promise is sequential evaluation. A call on \<^verbatim>\<open>null\<close> is the error
    \<open>TypeError\<close>, an array length out of range the error \<open>RangeError\<close>; a loop
    that does not return is the error \<open>NeverReturns\<close>.
\<close>

subsection \<open>Strings and numbers\<close>

definition toLowerCaseUnit :: "char \<Rightarrow> char" where
  "toLowerCaseUnit c =
     (let n = (of_char c :: nat) in
      if (65 \<le> n \<and> n \<le> 90) \<or> (192 \<le> n \<and> n \<le> 222 \<and> n \<noteq> 215)
      then char_of (n + 32) else c)"

definition toLowerCase :: "string \<Rightarrow> string" where
  "toLowerCase s = map toLowerCaseUnit s"

definition endsWith :: "string \<Rightarrow> string \<Rightarrow> bool" where
  "endsWith s t = (length t \<le> length s \<and> drop (length s - length t) s = t)"

definition byteLength :: "string \<Rightarrow> nat" where
  "byteLength s = sum_list (map (\<lambda>c. if (of_char c :: nat) < 128 then 1 else 2) s)"

text \<open>
  A non-negative integer converted to a string by \<^verbatim>\<open>+\<close>: its decimal digits.
  (No count is negative; the function is written for every integer to be total.)
\<close>

function numToString :: "int \<Rightarrow> string" where
  "numToString n =
     (if n < 10 then [char_of (48 + n)]
      else numToString (n div 10) @ [char_of (48 + n mod 10)])"
  by pat_completeness auto
termination
  by (relation "measure nat") auto

declare numToString.simps [simp del]

text \<open>
  The values the name table holds under a name: a count, or \<^verbatim>\<open>NaN\<close> once a
  built-in function has been incremented. Counts start at 1 and are far below the
  sizes where a JavaScript number stops being exact or prints with an exponent.
\<close>

datatype jsNumber = Number int | NaN

definition numberToString :: "jsNumber \<Rightarrow> string" where
  "numberToString v = (case v of Number n \<Rightarrow> numToString n | NaN \<Rightarrow> ''NaN'')"

definition increment :: "jsNumber \<Rightarrow> jsNumber" where
  "increment v = (case v of Number n \<Rightarrow> Number (n + 1) | NaN \<Rightarrow> NaN)"

datatype error = TypeError | RangeError | NeverReturns | OutOfFuel

subsection \<open>The name table: an array used as a dictionary\<close>

definition objectPrototypeNames :: "string list" where
  "objectPrototypeNames =
     [''constructor'', ''__defineGetter__'', ''__defineSetter__'', ''hasOwnProperty'',
      ''__lookupGetter__'', ''__lookupSetter__'', ''isPrototypeOf'',
      ''propertyIsEnumerable'', ''toString'', ''valueOf'', ''__proto__'',
      ''toLocaleString'']"

definition arrayPrototypeNames :: "string list" where
  "arrayPrototypeNames =
     [''length'', ''constructor'', ''concat'', ''copyWithin'', ''fill'', ''find'',
      ''findIndex'', ''lastIndexOf'', ''pop'', ''push'', ''reverse'', ''shift'',
      ''unshift'', ''slice'', ''sort'', ''splice'', ''includes'', ''indexOf'', ''join'',
      ''keys'', ''entries'', ''values'', ''forEach'', ''filter'', ''flat'', ''flatMap'',
      ''map'', ''every'', ''some'', ''reduce'', ''reduceRight'', ''toLocaleString'',
      ''toString'']"

text \<open>
  The array: its own properties other than \<^verbatim>\<open>length\<close> (elements are properties
  named by an array index), and its length.
\<close>

record nameTable =
  t_props :: "(string \<times> jsNumber) list"
  t_length :: int

definition emptyArray :: nameTable where
  "emptyArray = \<lparr> t_props = [], t_length = 0 \<rparr>"

text \<open>
  An array index is the canonical decimal form of an integer below \<open>2^32 - 1\<close>.
\<close>

definition isDigit :: "char \<Rightarrow> bool" where
  "isDigit c = (48 \<le> (of_char c :: int) \<and> (of_char c :: int) \<le> 57)"

definition digitsValue :: "string \<Rightarrow> int" where
  "digitsValue k = foldl (\<lambda>v c. 10 * v + ((of_char c :: int) - 48)) 0 k"

definition arrayIndex :: "string \<Rightarrow> int option" where
  "arrayIndex k =
     (if k \<noteq> [] \<and> list_all isDigit k then
        (if numToString (digitsValue k) = k \<and> digitsValue k < 4294967295
         then Some (digitsValue k) else None)
      else None)"

text \<open>\<^verbatim>\<open>k in existingFileNames\<close>.\<close>

definition hasKey :: "nameTable \<Rightarrow> string \<Rightarrow> bool" where
  "hasKey existingFileNames k =
     (k = ''length'' \<or> map_of (t_props existingFileNames) k \<noteq> None
      \<or> k \<in> set arrayPrototypeNames \<or> k \<in> set objectPrototypeNames)"

text \<open>
  \<^verbatim>\<open>existingFileNames[k]\<close> converted to a number, as \<^verbatim>\<open>++\<close> reads it. The
  accessor \<^verbatim>\<open>__proto__\<close> yields \<^verbatim>\<open>Array.prototype\<close>, an empty array, which
  converts to the empty string and so to 0; an inherited function, and
  \<^verbatim>\<open>undefined\<close>, convert to \<^verbatim>\<open>NaN\<close>.
\<close>

definition getNumber :: "nameTable \<Rightarrow> string \<Rightarrow> jsNumber" where
  "getNumber existingFileNames k =
     (if k = ''length'' then Number (t_length existingFileNames)
      else if k = ''__proto__'' then Number 0
      else (case map_of (t_props existingFileNames) k of Some v \<Rightarrow> v | None \<Rightarrow> NaN))"

text \<open>
  \<^verbatim>\<open>existingFileNames[k] = v\<close>. Writing \<^verbatim>\<open>length\<close> sets the length (and
  removes the elements from it on), or throws when the value is no array length;
  writing \<^verbatim>\<open>__proto__\<close> calls the inherited setter, which ignores a number; writing
  an array index sets the element and extends the length; any other name becomes an
  own property, also where the name is inherited.
\<close>

definition putNumber :: "nameTable \<Rightarrow> string \<Rightarrow> jsNumber \<Rightarrow> error + nameTable" where
  "putNumber existingFileNames k v =
     (if k = ''length'' then
        (case v of
           NaN \<Rightarrow> Inl RangeError
         | Number n \<Rightarrow>
             if n < 4294967296 then
               Inr (existingFileNames
                      \<lparr> t_props :=
                          (if n < t_length existingFileNames
                           then filter (\<lambda>(k', v'). case arrayIndex k' of
                                                     Some i \<Rightarrow> i < n | None \<Rightarrow> True)
                                  (t_props existingFileNames)
                           else t_props existingFileNames),
                        t_length := n \<rparr>)
             else Inl RangeError)
      else if k = ''__proto__'' then Inr existingFileNames
      else
        (case arrayIndex k of
           Some i \<Rightarrow>
             Inr (existingFileNames
                    \<lparr> t_props := AList.update k v (t_props existingFileNames),
                      t_length := max (t_length existingFileNames) (i + 1) \<rparr>)
         | None \<Rightarrow>
             Inr (existingFileNames
                    \<lparr> t_props := AList.update k v (t_props existingFileNames) \<rparr>)))"

text \<open>\<^verbatim>\<open>existingFileNames[k]++\<close>: the old value, and the table with the new one.\<close>

definition postIncrement :: "nameTable \<Rightarrow> string \<Rightarrow> error + (jsNumber \<times> nameTable)" where
  "postIncrement existingFileNames k =
     (let old = getNumber existingFileNames k in
      case putNumber existingFileNames k (increment old) of
        Inl e \<Rightarrow> Inl e
      | Inr names1 \<Rightarrow> Inr (old, names1))"

subsection \<open>getUniqueFilename (lines 21-42)\<close>

text \<open>
  The do-while loop of lines 28-33. It need not return: where it does not, the value
  is \<open>None\<close>.
\<close>

partial_function (option) uniqueLoop ::
  "nameTable \<Rightarrow> string \<Rightarrow> (error + (jsNumber \<times> nameTable)) option" where
  "uniqueLoop existingFileNames lcFileName =
     (case postIncrement existingFileNames lcFileName of
        Inl e \<Rightarrow> Some (Inl e)
      | Inr (index, names1) \<Rightarrow>
          if hasKey names1 (lcFileName @ ''_'' @ numberToString index)
          then uniqueLoop names1 lcFileName
          else Some (Inr (index, names1)))"

declare uniqueLoop.simps [code]

definition getUniqueFilename :: "nameTable \<Rightarrow> string \<Rightarrow> error + (string \<times> nameTable)" where
  "getUniqueFilename existingFileNames fileName =
     (let lcFileName = toLowerCase fileName in
      if hasKey existingFileNames lcFileName then
        (case uniqueLoop existingFileNames lcFileName of
           None \<Rightarrow> Inl NeverReturns
         | Some (Inl e) \<Rightarrow> Inl e
         | Some (Inr (index, names1)) \<Rightarrow>
             Inr (fileName @ ''_'' @ numberToString index, names1))
      else
        (case putNumber existingFileNames lcFileName (Number 1) of
           Inl e \<Rightarrow> Inl e
         | Inr names1 \<Rightarrow> Inr (fileName, names1)))"


text \<open>
  For a name that holds a count \<open>c\<close>, the loop of lines 28-33 ends with the first
  number from \<open>c\<close> on whose name \<open>lcFileName_n\<close> is not in the table
  (\<open>uniqueLoop_count\<close> below).
\<close>

function nextIndex :: "nameTable \<Rightarrow> string \<Rightarrow> nat \<Rightarrow> nat" where
  "nextIndex existingFileNames lcFileName c =
     (if hasKey existingFileNames (lcFileName @ ''_'' @ numToString (int c))
      then nextIndex existingFileNames lcFileName (Suc c)
      else c)"
  by pat_completeness auto

lemma numToString_nonempty: "numToString n \<noteq> []"
  by (subst numToString.simps) simp

lemma numToString_last: "0 \<le> n \<Longrightarrow> last (numToString n) = char_of (48 + n mod 10)"
  by (subst numToString.simps) simp

lemma numToString_butlast:
  "butlast (numToString n) = (if n < 10 then [] else numToString (n div 10))"
  by (subst numToString.simps) simp

lemma digit_char_inj:
  assumes "char_of (48 + a mod 10 :: int) = char_of (48 + b mod 10 :: int)"
  shows "a mod 10 = b mod 10"
proof -
  have "(of_char (char_of (48 + a mod 10 :: int)) :: int) = of_char (char_of (48 + b mod 10 :: int))"
    using assms by simp
  then have "(48 + a mod 10) mod 256 = (48 + b mod 10) mod 256"
    by simp
  moreover have "0 \<le> 48 + a mod 10" "48 + a mod 10 < 256" "0 \<le> 48 + b mod 10" "48 + b mod 10 < 256"
    by simp_all
  ultimately show ?thesis by simp
qed

lemma numToString_inj: "0 \<le> a \<Longrightarrow> 0 \<le> b \<Longrightarrow> numToString a = numToString b \<Longrightarrow> a = b"
proof (induction a arbitrary: b rule: numToString.induct)
  case (1 a)
  have "last (numToString a) = last (numToString b)"
    using "1.prems"(3) by (rule arg_cong)
  then have "char_of (48 + a mod 10) = char_of (48 + b mod 10)"
    using "1.prems"(1,2) by (simp only: numToString_last)
  then have m: "a mod 10 = b mod 10"
    by (rule digit_char_inj)
  have bl: "butlast (numToString a) = butlast (numToString b)"
    using "1.prems"(3) by (rule arg_cong)
  show ?case
  proof (cases "a < 10")
    case True
    have "b < 10"
    proof (rule ccontr)
      assume "\<not> b < 10"
      with True bl have "[] = numToString (b div 10)"
        by (simp only: numToString_butlast if_True if_False)
      then show False
        using numToString_nonempty [of "b div 10"] by simp
    qed
    with True m "1.prems"(1,2) show ?thesis by simp
  next
    case False
    have nb: "\<not> b < 10"
    proof
      assume "b < 10"
      with False bl have "numToString (a div 10) = []"
        by (simp only: numToString_butlast if_True if_False)
      then show False
        using numToString_nonempty [of "a div 10"] by simp
    qed
    with False bl have eq: "numToString (a div 10) = numToString (b div 10)"
      by (simp only: numToString_butlast if_True if_False)
    have "0 \<le> a div 10" "0 \<le> b div 10"
      using "1.prems"(1,2) by simp_all
    with "1.IH" False eq have d: "a div 10 = b div 10" by blast
    have "a = 10 * (a div 10) + a mod 10" by simp
    also have "\<dots> = 10 * (b div 10) + b mod 10" using d m by simp
    also have "\<dots> = b" by simp
    finally show ?thesis .
  qed
qed

lemma finite_hasKey: "finite {k. hasKey t k}"
proof -
  have "{k. hasKey t k} \<subseteq>
      insert ''length'' (fst ` set (t_props t) \<union> set arrayPrototypeNames \<union> set objectPrototypeNames)"
    by (auto simp: hasKey_def dest!: map_of_SomeD intro: rev_image_eqI)
  then show ?thesis
    by (rule finite_subset) simp
qed

termination nextIndex
proof (relation "measure (\<lambda>(t, lc, c). card {n. c \<le> n \<and> hasKey t (lc @ ''_'' @ numToString (int n))})")
  show "wf (measure (\<lambda>(t, lc, c). card {n. c \<le> n \<and> hasKey t (lc @ ''_'' @ numToString (int n))}))"
    by simp
next
  fix t :: nameTable and lc :: string and c :: nat
  assume h: "hasKey t (lc @ ''_'' @ numToString (int c))"
  let ?S = "\<lambda>c. {n. c \<le> n \<and> hasKey t (lc @ ''_'' @ numToString (int n))}"
  have inj: "inj_on (\<lambda>n. lc @ ''_'' @ numToString (int n)) (?S c)"
    by (auto simp: inj_on_def dest: numToString_inj [rotated 2])
  have "(\<lambda>n. lc @ ''_'' @ numToString (int n)) ` ?S c \<subseteq> {k. hasKey t k}"
    by auto
  then have "finite ((\<lambda>n. lc @ ''_'' @ numToString (int n)) ` ?S c)"
    by (rule finite_subset) (rule finite_hasKey)
  with inj have fin: "finite (?S c)"
    by (rule finite_imageD [rotated])
  have "c \<in> ?S c" "c \<notin> ?S (Suc c)" "?S (Suc c) \<subseteq> ?S c"
    using h by auto
  then have "?S (Suc c) \<subset> ?S c"
    by blast
  with fin have "card (?S (Suc c)) < card (?S c)"
    by (rule psubset_card_mono)
  then show "((t, lc, Suc c), (t, lc, c)) \<in>
      measure (\<lambda>(t, lc, c). card {n. c \<le> n \<and> hasKey t (lc @ ''_'' @ numToString (int n))})"
    by simp
qed

declare nextIndex.simps [simp del]

subsection \<open>Notes, branches and the manifest\<close>

text \<open>
  The entities of the persistence layer, with the fields the export reads.
  \<open>n_labels\<close> are the names \<^verbatim>\<open>note.hasLabel\<close> answers for.
\<close>

record Attribute =
  a_type :: string
  a_name :: string
  a_value :: string
  a_isInheritable :: bool
  a_position :: int

record Link =
  l_type :: string
  l_targetNoteId :: string

record Branch =
  b_noteId :: string
  b_prefix :: "string option"
  b_isExpanded :: bool

record Note =
  n_noteId :: string
  n_title :: string
  n_type :: string
  n_mime :: string
  n_content :: string
  n_labels :: "string list"
  n_ownedAttributes :: "Attribute list"
  n_links :: "Link list"
  n_childBranches :: "Branch list"

text \<open>The repository is a finite collection of notes; a note is fetched by its id.\<close>

type_synonym repository = "Note list"

definition repositoryGetNote :: "repository \<Rightarrow> string \<Rightarrow> Note option" where
  "repositoryGetNote repo noteId = find (\<lambda>n. n_noteId n = noteId) repo"

definition hasLabel :: "Note \<Rightarrow> string \<Rightarrow> bool" where
  "hasLabel note name = (name \<in> set (n_labels note))"

text \<open>
  The two shapes of a manifest node: the stub of a clone (lines 79-84) and the full
  metadata (lines 87-128). \<open>children\<close> is set together with \<open>dirFileName\<close> and
  only then; the node keeps the list, empty where the field is absent.
\<close>

record CloneMeta =
  c_noteId :: string
  c_prefix :: "string option"
  c_dataFileName :: string

record NoteMeta =
  m_noteId :: string
  m_title :: string
  m_prefix :: "string option"
  m_isExpanded :: bool
  m_type :: string
  m_mime :: string
  m_attributes :: "Attribute list"
  m_links :: "Link list"
  m_format :: "string option"
  m_dataFileName :: "string option"
  m_dirFileName :: "string option"

datatype node = Clone CloneMeta | Full NoteMeta "node list"

text \<open>
  The required libraries, as parameters. \<open>builtinText\<close> is the text a member
  inherited from \<^verbatim>\<open>Object.prototype\<close> converts to when it is appended to a string.
\<close>

record externals =
  sanitize :: "string \<Rightarrow> string"
  mimeExtension :: "string \<Rightarrow> string option"
  prettyPrint :: "string \<Rightarrow> string"
  turndown :: "string \<Rightarrow> string"
  jsonStringify :: "node \<Rightarrow> string"
  builtinText :: "string \<Rightarrow> string"

subsection \<open>Plain objects used as dictionaries (lines 19 and 158)\<close>

text \<open>
  \<^verbatim>\<open>k in obj\<close> for an object created by \<^verbatim>\<open>{}\<close>: true for its own properties and
  for the names inherited from \<^verbatim>\<open>Object.prototype\<close>.
\<close>

definition inObject :: "(string \<rightharpoonup> 'a) \<Rightarrow> string \<Rightarrow> bool" where
  "inObject obj k = (obj k \<noteq> None \<or> k \<in> set objectPrototypeNames)"

subsection \<open>getDataFileName (lines 44-64)\<close>

definition chooseExtension :: "externals \<Rightarrow> string \<Rightarrow> Note \<Rightarrow> string" where
  "chooseExtension X format note =
     (if n_type note = ''text'' \<and> format = ''markdown'' then ''md''
      else if n_mime note = ''application/x-javascript'' then ''js''
      else (case mimeExtension X (n_mime note) of
              None \<Rightarrow> ''dat''
            | Some e \<Rightarrow> if e = [] then ''dat'' else e))"

definition withExtension :: "string \<Rightarrow> string \<Rightarrow> string" where
  "withExtension baseFileName extension =
     (if \<not> endsWith (toLowerCase baseFileName) extension
      then baseFileName @ ''.'' @ extension
      else baseFileName)"

definition getDataFileName ::
  "externals \<Rightarrow> string \<Rightarrow> Note \<Rightarrow> string \<Rightarrow> nameTable \<Rightarrow> error + (string \<times> nameTable)" where
  "getDataFileName X format note baseFileName existingFileNames =
     getUniqueFilename existingFileNames
       (withExtension baseFileName (chooseExtension X format note))"

subsection \<open>getNote (lines 66-143)\<close>

text \<open>
  \<^verbatim>\<open>branch.prefix ? (branch.prefix + ' - ' + note.title) : note.title\<close>: an absent
  and an empty prefix are both falsy.
\<close>

definition baseFileNameOf :: "Branch \<Rightarrow> Note \<Rightarrow> string" where
  "baseFileNameOf branch note =
     (case b_prefix branch of
        None \<Rightarrow> n_title note
      | Some p \<Rightarrow> if p = [] then n_title note else p @ '' - '' @ n_title note)"

definition newMeta :: "string \<Rightarrow> Branch \<Rightarrow> Note \<Rightarrow> NoteMeta" where
  "newMeta format branch note =
     \<lparr> m_noteId = n_noteId note,
       m_title = n_title note,
       m_prefix = b_prefix branch,
       m_isExpanded = b_isExpanded branch,
       m_type = n_type note,
       m_mime = n_mime note,
       m_attributes = n_ownedAttributes note,
       m_links = n_links note,
       m_format = (if n_type note = ''text'' then Some format else None),
       m_dataFileName = None,
       m_dirFileName = None \<rparr>"

text \<open>Lines 76-84: the stub of a note that is \<^verbatim>\<open>in noteIdToMeta\<close>.\<close>

definition cloneStub ::
  "externals \<Rightarrow> Branch \<Rightarrow> Note \<Rightarrow> nameTable \<Rightarrow> error + (node \<times> nameTable)" where
  "cloneStub X branch note existingFileNames =
     (let sanitizedFileName = sanitize X (baseFileNameOf branch note @ ''.clone'')
      in case getUniqueFilename existingFileNames sanitizedFileName of
           Inl e \<Rightarrow> Inl e
         | Inr (fileName, names1) \<Rightarrow>
             Inr (Clone \<lparr> c_noteId = n_noteId note, c_prefix = b_prefix branch,
                          c_dataFileName = fileName \<rparr>,
                  names1))"

text \<open>Lines 122-124: a leaf, or a note with content, gets a data file.\<close>

definition assignDataFileName ::
  "externals \<Rightarrow> string \<Rightarrow> Branch \<Rightarrow> Note \<Rightarrow> NoteMeta \<Rightarrow> nameTable
    \<Rightarrow> error + (NoteMeta \<times> nameTable)" where
  "assignDataFileName X format branch note meta existingFileNames =
     (if length (n_content note) > 0 \<or> length (n_childBranches note) = 0
      then (case getDataFileName X format note (baseFileNameOf branch note) existingFileNames of
              Inl e \<Rightarrow> Inl e
            | Inr (fileName, names1) \<Rightarrow> Inr (meta\<lparr>m_dataFileName := Some fileName\<rparr>, names1))
      else Inr (meta, existingFileNames))"

text \<open>Line 127: a note with child branches gets a directory.\<close>

definition assignDirFileName ::
  "Branch \<Rightarrow> Note \<Rightarrow> NoteMeta \<Rightarrow> nameTable \<Rightarrow> error + (NoteMeta \<times> nameTable)" where
  "assignDirFileName branch note meta existingFileNames =
     (case getUniqueFilename existingFileNames (baseFileNameOf branch note) of
        Inl e \<Rightarrow> Inl e
      | Inr (dirName, names1) \<Rightarrow> Inr (meta\<lparr>m_dirFileName := Some dirName\<rparr>, names1))"

text \<open>
  The state of the build pass is the name table the caller passed by reference and the
  map \<^verbatim>\<open>noteIdToMeta\<close> of the enclosing call. \<open>getNote\<close> returns the node (or
  nothing, for an excluded note) and both updated. The object registered on line 117
  is the one lines 123-128 fill in, and nothing reads the map in between, so the map
  entry is written with these fields set; it is written before the child branches
  are visited. Line 117 is reached only with a note id the test of line 75 does not
  hold for, so the assignment creates an own property. The recursion follows the
  branch graph, which may be cyclic, so the first argument bounds the depth of the
  calls, and a call with no depth left is the error \<open>OutOfFuel\<close>. \<open>getChildren\<close> is
  the loop of lines 132-139, which passes each child the table \<open>existingFileNames\<close>
  of its parent (line 133; the table \<open>childExistingNames\<close> created on line 130 is not
  used).
\<close>

type_synonym metaMap = "string \<rightharpoonup> NoteMeta"

fun getNote ::
    "nat \<Rightarrow> externals \<Rightarrow> repository \<Rightarrow> string \<Rightarrow> Branch \<Rightarrow> nameTable \<Rightarrow> metaMap
      \<Rightarrow> error + (node option \<times> nameTable \<times> metaMap)"
  and getChildren ::
    "nat \<Rightarrow> externals \<Rightarrow> repository \<Rightarrow> string \<Rightarrow> Branch list \<Rightarrow> nameTable \<Rightarrow> metaMap
      \<Rightarrow> error + (node list \<times> nameTable \<times> metaMap)"
where
  "getNote 0 X repo format branch existingFileNames noteIdToMeta = Inl OutOfFuel"
| "getNote (Suc d) X repo format branch existingFileNames noteIdToMeta =
     (case repositoryGetNote repo (b_noteId branch) of
        None \<Rightarrow> Inl TypeError
      | Some note \<Rightarrow>
          if hasLabel note ''excludeFromExport'' then Inr (None, existingFileNames, noteIdToMeta)
          else if inObject noteIdToMeta (n_noteId note) then
            (case cloneStub X branch note existingFileNames of
               Inl e \<Rightarrow> Inl e
             | Inr (stub, names1) \<Rightarrow> Inr (Some stub, names1, noteIdToMeta))
          else
            (case assignDataFileName X format branch note (newMeta format branch note)
                    existingFileNames of
               Inl e \<Rightarrow> Inl e
             | Inr (meta1, names1) \<Rightarrow>
                 if length (n_childBranches note) > 0 then
                   (case assignDirFileName branch note meta1 names1 of
                      Inl e \<Rightarrow> Inl e
                    | Inr (meta2, names2) \<Rightarrow>
                        (case getChildren d X repo format (n_childBranches note) names2
                                (noteIdToMeta(n_noteId note \<mapsto> meta2)) of
                           Inl e \<Rightarrow> Inl e
                         | Inr (children, names3, metas3) \<Rightarrow>
                             Inr (Some (Full meta2 children), names3, metas3)))
                 else Inr (Some (Full meta1 []), names1, noteIdToMeta(n_noteId note \<mapsto> meta1))))"
| "getChildren d X repo format [] existingFileNames noteIdToMeta =
     Inr ([], existingFileNames, noteIdToMeta)"
| "getChildren d X repo format (childBranch # rest) existingFileNames noteIdToMeta =
     (case getNote d X repo format childBranch existingFileNames noteIdToMeta of
        Inl e \<Rightarrow> Inl e
      | Inr (r, names1, metas1) \<Rightarrow>
          (case getChildren d X repo format rest names1 metas1 of
             Inl e \<Rightarrow> Inl e
           | Inr (children, names2, metas2) \<Rightarrow>
               Inr ((case r of None \<Rightarrow> children | Some n \<Rightarrow> n # children), names2, metas2)))"

subsection \<open>The reference filter (lines 196-200)\<close>

text \<open>
  Every metadata object of \<^verbatim>\<open>noteIdToMeta\<close> loses the relations and links whose
  target is not \<^verbatim>\<open>in noteIdToMeta\<close>. The objects of the map are the full nodes of
  the manifest tree (line 117 registers the object that line 142 returns), so the
  loop over the values of the map filters every full node of the tree.
\<close>

definition filterMeta :: "metaMap \<Rightarrow> NoteMeta \<Rightarrow> NoteMeta" where
  "filterMeta noteIdToMeta noteMeta =
     noteMeta\<lparr>
       m_attributes :=
         filter (\<lambda>attr. a_type attr \<noteq> ''relation'' \<or> inObject noteIdToMeta (a_value attr))
           (m_attributes noteMeta),
       m_links :=
         filter (\<lambda>link. inObject noteIdToMeta (l_targetNoteId link)) (m_links noteMeta) \<rparr>"

fun filterNode :: "metaMap \<Rightarrow> node \<Rightarrow> node" where
  "filterNode noteIdToMeta (Clone c) = Clone c"
| "filterNode noteIdToMeta (Full m children) =
     Full (filterMeta noteIdToMeta m) (map (filterNode noteIdToMeta) children)"

subsection \<open>prepareContent and saveNote (lines 145-187)\<close>

text \<open>
  An entry of the archive: a file with its name, the size the archive declares for it
  and its content, or a directory.
\<close>

datatype entry =
  FileEntry (e_name: string) (e_size: nat) (e_content: string)
| DirectoryEntry (e_name: string)

text \<open>
  Modelled from the spec: \<^verbatim>\<open>pack.entry({name, size}, content)\<close> of the library
  tar-stream, which is not part of the sources. For a content given as a string the
  library writes the encoded content and declares the number of its bytes; the
  \<^verbatim>\<open>size\<close> the caller passes (\<^verbatim>\<open>content.length\<close>, a count of UTF-16 code units)
  does not reach the archive.
\<close>

definition packEntry :: "string \<Rightarrow> nat \<Rightarrow> string \<Rightarrow> entry" where
  "packEntry name declared content = FileEntry name (byteLength content) content"

text \<open>
  \<^verbatim>\<open>turndownService\<close> is an object only when the export format is markdown
  (line 15); otherwise it is \<^verbatim>\<open>null\<close> and a call on it throws.
\<close>

definition prepareContent ::
  "externals \<Rightarrow> string \<Rightarrow> Note \<Rightarrow> string option \<Rightarrow> error + string" where
  "prepareContent X exportFormat note format =
     (if format = Some ''html'' then Inr (prettyPrint X (n_content note))
      else if format = Some ''markdown'' then
        (if exportFormat = ''markdown'' then Inr (turndown X (n_content note))
         else Inl TypeError)
      else Inr (n_content note))"

text \<open>A value that may be \<^verbatim>\<open>undefined\<close>, appended to a string.\<close>

definition jsString :: "string option \<Rightarrow> string" where
  "jsString v = (case v of None \<Rightarrow> ''undefined'' | Some s \<Rightarrow> s)"

text \<open>\<^verbatim>\<open>noteMeta.dataFileName || noteMeta.dirFileName\<close>: the empty string is falsy.\<close>

definition truthy :: "string option \<Rightarrow> bool" where
  "truthy v = (case v of None \<Rightarrow> False | Some s \<Rightarrow> s \<noteq> [])"

definition dataOrDirFileName :: "NoteMeta \<Rightarrow> string option" where
  "dataOrDirFileName noteMeta =
     (if truthy (m_dataFileName noteMeta) then m_dataFileName noteMeta
      else m_dirFileName noteMeta)"

type_synonym pathMap = "string \<rightharpoonup> string"

text \<open>
  \<^verbatim>\<open>notePaths[noteId]\<close> appended to a string (line 162): the path stored under the
  id, else the text of the member the object inherits under that name, else
  \<^verbatim>\<open>undefined\<close>.
\<close>

definition pathText :: "externals \<Rightarrow> pathMap \<Rightarrow> string \<Rightarrow> string" where
  "pathText X notePaths noteId =
     (case notePaths noteId of
        Some p \<Rightarrow> p
      | None \<Rightarrow>
          if noteId \<in> set objectPrototypeNames then builtinText X noteId else ''undefined'')"

text \<open>
  \<^verbatim>\<open>notePaths[noteId] = p\<close> (line 170): the inherited setter \<^verbatim>\<open>__proto__\<close> ignores
  a string; every other name becomes an own property.
\<close>

definition setPath :: "pathMap \<Rightarrow> string \<Rightarrow> string \<Rightarrow> pathMap" where
  "setPath notePaths noteId p =
     (if noteId = ''__proto__'' then notePaths else notePaths(noteId \<mapsto> p))"

fun saveNote ::
    "externals \<Rightarrow> repository \<Rightarrow> string \<Rightarrow> node \<Rightarrow> string \<Rightarrow> pathMap \<times> entry list
      \<Rightarrow> error + (pathMap \<times> entry list)"
  and saveChildren ::
    "externals \<Rightarrow> repository \<Rightarrow> string \<Rightarrow> node list \<Rightarrow> string \<Rightarrow> pathMap \<times> entry list
      \<Rightarrow> error + (pathMap \<times> entry list)"
where
  "saveNote X repo exportFormat (Clone c) path (notePaths, pack) =
     (let content = ''Note is present at '' @ pathText X notePaths (c_noteId c)
      in Inr (notePaths,
              pack @ [packEntry (path @ ''/'' @ c_dataFileName c) (length content) content]))"
| "saveNote X repo exportFormat (Full noteMeta children) path (notePaths, pack) =
     (case repositoryGetNote repo (m_noteId noteMeta) of
        None \<Rightarrow> Inl TypeError
      | Some note \<Rightarrow>
          let notePaths1 =
                setPath notePaths (n_noteId note)
                  (path @ ''/'' @ jsString (dataOrDirFileName noteMeta))
          in case (if truthy (m_dataFileName noteMeta) then
                     (case prepareContent X exportFormat note (m_format noteMeta) of
                        Inl e \<Rightarrow> Inl e
                      | Inr content \<Rightarrow>
                          Inr (pack @ [packEntry (path @ ''/'' @ jsString (m_dataFileName noteMeta))
                                         (length content) content]))
                   else Inr pack) of
               Inl e \<Rightarrow> Inl e
             | Inr pack1 \<Rightarrow>
                 if length children > 0 then
                   (let directoryPath = path @ ''/'' @ jsString (m_dirFileName noteMeta)
                    in saveChildren X repo exportFormat children directoryPath
                         (notePaths1, pack1 @ [DirectoryEntry directoryPath]))
                 else Inr (notePaths1, pack1))"
| "saveChildren X repo exportFormat [] path s = Inr s"
| "saveChildren X repo exportFormat (childMeta # rest) path s =
     (case saveNote X repo exportFormat childMeta path s of
        Inl e \<Rightarrow> Inl e
      | Inr s1 \<Rightarrow> saveChildren X repo exportFormat rest path s1)"

subsection \<open>exportToTar (lines 14-222)\<close>

datatype resAction = SendStatus nat | SetHeader string string | PipeArchive

record outcome =
  o_pack :: "entry list"
  o_finalized :: bool
  o_response :: "resAction list"

text \<open>
  The build pass starts from the root branch with the empty array of line 192 as name
  table and an empty \<^verbatim>\<open>noteIdToMeta\<close>. Its depth bound is one more than the number of
  notes of the repository, which is enough for every repository
  (\<open>getNote_enough_fuel\<close> below).
\<close>

definition buildFuel :: "repository \<Rightarrow> nat" where
  "buildFuel repo = Suc (length repo)"

definition tarFileNameOf :: "externals \<Rightarrow> Branch \<Rightarrow> Note \<Rightarrow> string" where
  "tarFileNameOf X branch note =
     sanitize X
       ((case b_prefix branch of
           None \<Rightarrow> []
         | Some p \<Rightarrow> if p = [] then [] else p @ '' - '') @ n_title note)"

text \<open>Lines 189-200: \<^verbatim>\<open>metaFile.files[0]\<close> after the reference filter.\<close>

definition buildManifest ::
  "externals \<Rightarrow> repository \<Rightarrow> Branch \<Rightarrow> string \<Rightarrow> error + node option" where
  "buildManifest X repo branch format =
     (case getNote (buildFuel repo) X repo format branch emptyArray Map.empty of
        Inl e \<Rightarrow> Inl e
      | Inr (root, names, noteIdToMeta) \<Rightarrow> Inr (map_option (filterNode noteIdToMeta) root))"

definition exportToTar :: "externals \<Rightarrow> repository \<Rightarrow> Branch \<Rightarrow> string \<Rightarrow> error + outcome" where
  "exportToTar X repo branch format =
     (case buildManifest X repo branch format of
        Inl e \<Rightarrow> Inl e
      | Inr None \<Rightarrow> Inr \<lparr> o_pack = [], o_finalized = False, o_response = [SendStatus 400] \<rparr>
      | Inr (Some file) \<Rightarrow>
          let metaFileJson = jsonStringify X file;
              pack0 = [packEntry ''!!!meta.json'' (length metaFileJson) metaFileJson]
          in case saveNote X repo format file [] (Map.empty, pack0) of
               Inl e \<Rightarrow> Inl e
             | Inr (notePaths, pack1) \<Rightarrow>
                 (case repositoryGetNote repo (b_noteId branch) of
                    None \<Rightarrow> Inl TypeError
                  | Some note \<Rightarrow>
                      Inr \<lparr> o_pack = pack1, o_finalized = True,
                            o_response =
                              [SetHeader ''Content-Disposition''
                                 (''file; filename='' @ [CHR 0x22] @ tarFileNameOf X branch note
                                    @ ''.tar'' @ [CHR 0x22]),
                               SetHeader ''Content-Type'' ''application/tar'',
                               PipeArchive] \<rparr>))"

subsection \<open>Reading a manifest; sample notes\<close>

fun dataFileNameOf :: "node \<Rightarrow> string option" where
  "dataFileNameOf (Clone c) = Some (c_dataFileName c)"
| "dataFileNameOf (Full m children) = m_dataFileName m"

fun dirFileNameOf :: "node \<Rightarrow> string option" where
  "dirFileNameOf (Clone c) = None"
| "dirFileNameOf (Full m children) = m_dirFileName m"

fun childrenOf :: "node \<Rightarrow> node list" where
  "childrenOf (Clone c) = []"
| "childrenOf (Full m children) = children"

text \<open>
  Sample inputs for the closed theorems: libraries that change nothing (with the text
  Node.js gives for the members of \<^verbatim>\<open>Object.prototype\<close>), text notes without
  labels, attributes or links, and branches without a prefix.
\<close>

definition plainLibs :: externals where
  "plainLibs =
     \<lparr> sanitize = (\<lambda>s. s), mimeExtension = (\<lambda>m. None), prettyPrint = (\<lambda>s. s),
       turndown = (\<lambda>s. s), jsonStringify = (\<lambda>n. []),
       builtinText =
         (\<lambda>k. if k = ''__proto__'' then ''[object Object]''
              else ''function '' @ (if k = ''constructor'' then ''Object'' else k)
                     @ ''() { [native code] }'') \<rparr>"

definition plainBranch :: "string \<Rightarrow> Branch" where
  "plainBranch noteId = \<lparr> b_noteId = noteId, b_prefix = None, b_isExpanded = False \<rparr>"

definition textNote :: "string \<Rightarrow> string \<Rightarrow> string \<Rightarrow> string list \<Rightarrow> Note" where
  "textNote noteId title content childIds =
     \<lparr> n_noteId = noteId, n_title = title, n_type = ''text'', n_mime = ''text/html'',
       n_content = content, n_labels = [], n_ownedAttributes = [], n_links = [],
       n_childBranches = map plainBranch childIds \<rparr>"

section \<open>Properties\<close>

subsection \<open>The scenario of a root with the children A and a\<close>

definition scenarioRepo :: repository where
  "scenarioRepo =
     [textNote ''r'' ''Root'' '''' [''n1'', ''n2''],
      textNote ''n1'' ''A'' ''hi'' [],
      textNote ''n2'' ''a'' ''bye'' []]"

text \<open>
  C3, as amended. In the markdown export of the root "Root" (text, empty content) with
  the text children "A" (content "hi") and "a" (content "bye"), the root node has the
  directory name "Root" and no data file name, the child "A" has the data file name
  "A.md", and the child "a", whose name "a.md" collides with "A.md" without regard to
  case, has the data file name "a.md_1": the suffix follows the whole candidate name,
  extension included. This holds for every choice of the libraries.
\<close>

theorem scenario_names:
  "(case buildManifest X scenarioRepo (plainBranch ''r'') ''markdown'' of
      Inr (Some root) \<Rightarrow>
        Some (dirFileNameOf root, dataFileNameOf root, map dataFileNameOf (childrenOf root))
    | _ \<Rightarrow> None)
   = Some (Some ''Root'', None, [Some ''A.md'', Some ''a.md_1''])"
  by code_simp

text \<open>C3 as stated names "a_1.md" for the child "a"; the export does not produce it.\<close>

theorem scenario_names_counterexample:
  "(case buildManifest plainLibs scenarioRepo (plainBranch ''r'') ''markdown'' of
      Inr (Some root) \<Rightarrow>
        Some (dirFileNameOf root, dataFileNameOf root, map dataFileNameOf (childrenOf root))
    | _ \<Rightarrow> None)
   \<noteq> Some (Some ''Root'', None, [Some ''A.md'', Some ''a_1.md''])"
  by code_simp

subsection \<open>The name table handed to the children\<close>

definition nestedRepo :: repository where
  "nestedRepo =
     [textNote ''r'' ''docs'' '''' [''n1''],
      textNote ''n1'' ''docs'' '''' [''n2''],
      textNote ''n2'' ''x'' ''text'' []]"

text \<open>
  C1 at a concrete input. The root "docs" has one child "docs", which has a child of
  its own. The child is the only entry of the root's directory, yet its directory name
  is "docs_1": it was checked against the name the root got in the directory above,
  because line 133 passes the table of the parent on.
\<close>

theorem child_checked_against_parent_directory:
  "(case buildManifest X nestedRepo (plainBranch ''r'') ''markdown'' of
      Inr (Some root) \<Rightarrow> Some (dirFileNameOf root, map dirFileNameOf (childrenOf root))
    | _ \<Rightarrow> None)
   = Some (Some ''docs'', [Some ''docs_1''])"
  by code_simp

subsection \<open>Names given after a collision are not reserved\<close>

definition siblingsRepo :: repository where
  "siblingsRepo =
     [textNote ''r'' ''Root'' '''' [''n1'', ''n2'', ''n3''],
      textNote ''n1'' ''a'' '''' [''c1''],
      textNote ''n2'' ''a'' '''' [''c2''],
      textNote ''n3'' ''a_1'' '''' [''c3''],
      textNote ''c1'' ''x'' ''1'' [],
      textNote ''c2'' ''y'' ''2'' [],
      textNote ''c3'' ''z'' ''3'' []]"

text \<open>
  C2 at a concrete input. Three sibling notes "a", "a" and "a_1", each with a child,
  get the directory names "a", "a_1" and "a_1": the name "a_1" made for the second is
  not entered into the table (lines 28-35 only advance the counter of "a"), so the
  third takes it again.
\<close>

theorem siblings_share_a_name:
  "(case buildManifest X siblingsRepo (plainBranch ''r'') ''markdown'' of
      Inr (Some root) \<Rightarrow> Some (map dirFileNameOf (childrenOf root))
    | _ \<Rightarrow> None)
   = Some [Some ''a'', Some ''a_1'', Some ''a_1'']"
  by code_simp

subsection \<open>Directory names are not sanitized\<close>

definition slashRepo :: repository where
  "slashRepo =
     [textNote ''r'' ''a/b'' '''' [''n1''],
      textNote ''n1'' ''x'' ''text'' []]"

text \<open>
  C4 at a concrete input. A note titled "a/b" with a child gets the directory name
  "a/b" whatever the sanitizer is: line 127 passes \<open>baseFileName\<close> itself, and only
  the clone branch (line 76) calls the sanitizer.
\<close>

theorem directory_name_not_sanitized:
  "(case buildManifest X slashRepo (plainBranch ''r'') ''markdown'' of
      Inr (Some root) \<Rightarrow> dirFileNameOf root
    | _ \<Rightarrow> None)
   = Some ''a/b''"
  by code_simp

subsection \<open>Excluded root: the empty export\<close>

text \<open>
  C6. If the note of the root branch carries the label excludeFromExport, the export
  does not throw: it returns normally, the only response action is the status 400
  (no header is set and no archive is piped as a body), and the pack holds no entry,
  not even the one that describes the manifest.
\<close>

theorem excluded_root_is_status_400:
  assumes "repositoryGetNote repo (b_noteId branch) = Some note"
    and "hasLabel note ''excludeFromExport''"
  shows "exportToTar X repo branch format =
           Inr \<lparr> o_pack = [], o_finalized = False, o_response = [SendStatus 400] \<rparr>"
  using assms by (simp add: exportToTar_def buildManifest_def buildFuel_def)

definition excludedNote :: Note where
  "excludedNote = (textNote ''r'' ''Root'' ''secret'' [''n1''])\<lparr>n_labels := [''excludeFromExport'']\<rparr>"

definition excludedRepo :: repository where
  "excludedRepo = [excludedNote, textNote ''n1'' ''A'' ''hi'' []]"

theorem excluded_root_is_status_400_witness:
  "repositoryGetNote excludedRepo (b_noteId (plainBranch ''r'')) = Some excludedNote
   \<and> hasLabel excludedNote ''excludeFromExport''
   \<and> exportToTar plainLibs excludedRepo (plainBranch ''r'') ''html'' =
        Inr \<lparr> o_pack = [], o_finalized = False, o_response = [SendStatus 400] \<rparr>"
proof -
  have found: "repositoryGetNote excludedRepo (b_noteId (plainBranch ''r'')) = Some excludedNote"
    by code_simp
  have labelled: "hasLabel excludedNote ''excludeFromExport''"
    by code_simp
  from found labelled excluded_root_is_status_400 [OF found labelled]
  show ?thesis by simp
qed

subsection \<open>The loop of getUniqueFilename\<close>



text \<open>
  What holds of the name table throughout the build pass: its length and its counts
  are not negative, and no own name has the letter N (the names are lowercased).
\<close>

definition goodTable :: "nameTable \<Rightarrow> bool" where
  "goodTable t =
     (0 \<le> t_length t
      \<and> (\<forall>(k, v) \<in> set (t_props t). CHR ''N'' \<notin> set k \<and> (\<forall>c. v = Number c \<longrightarrow> 0 \<le> c)))"


lemma inherited_no_N:
  "\<forall>k \<in> set arrayPrototypeNames \<union> set objectPrototypeNames \<union> {''length''}. CHR ''N'' \<notin> set k"
  by code_simp

lemma hasKey_no_N:
  assumes "goodTable t" and "hasKey t k"
  shows "CHR ''N'' \<notin> set k"
proof (cases "map_of (t_props t) k")
  case None
  with assms(2) have "k \<in> set arrayPrototypeNames \<union> set objectPrototypeNames \<union> {''length''}"
    by (auto simp: hasKey_def)
  with inherited_no_N show ?thesis
    by blast
next
  case (Some v)
  then have "(k, v) \<in> set (t_props t)"
    by (rule map_of_SomeD)
  with assms(1) show ?thesis
    by (auto simp: goodTable_def)
qed


lemma postIncrement_proto: "postIncrement t ''__proto__'' = Inr (Number 0, t)"
  by (simp add: postIncrement_def getNumber_def putNumber_def increment_def)


definition storedNumber :: "nameTable \<Rightarrow> string \<Rightarrow> jsNumber" where
  "storedNumber t k = (case map_of (t_props t) k of Some v \<Rightarrow> v | None \<Rightarrow> NaN)"

definition stored :: "nameTable \<Rightarrow> string \<Rightarrow> jsNumber \<Rightarrow> nameTable" where
  "stored t k v =
     t\<lparr> t_props := AList.update k v (t_props t),
        t_length := (case arrayIndex k of
                       Some i \<Rightarrow> max (t_length t) (i + 1)
                     | None \<Rightarrow> t_length t) \<rparr>"

lemma putNumber_other:
  "k \<noteq> ''length'' \<Longrightarrow> k \<noteq> ''__proto__'' \<Longrightarrow> putNumber t k v = Inr (stored t k v)"
  by (simp add: putNumber_def stored_def split: option.splits)

lemma postIncrement_other:
  "k \<noteq> ''length'' \<Longrightarrow> k \<noteq> ''__proto__'' \<Longrightarrow>
     postIncrement t k = Inr (storedNumber t k, stored t k (increment (storedNumber t k)))"
  by (simp add: postIncrement_def getNumber_def putNumber_other storedNumber_def Let_def)

lemma hasKey_stored: "hasKey (stored t k v) k' = (hasKey t k' \<or> k' = k)"
  by (auto simp: hasKey_def stored_def update_conv')

lemma map_of_stored: "map_of (t_props (stored t k v)) k = Some v"
  by (simp add: stored_def update_conv')

lemma set_update_subset: "set (AList.update k v al) \<subseteq> insert (k, v) (set al)"
  by (induction al) auto

lemma goodTable_stored:
  assumes "goodTable t" and "CHR ''N'' \<notin> set k" and "\<forall>c. v = Number c \<longrightarrow> 0 \<le> c"
  shows "goodTable (stored t k v)"
proof -
  have "\<forall>(k', v') \<in> set (t_props (stored t k v)).
      CHR ''N'' \<notin> set k' \<and> (\<forall>c. v' = Number c \<longrightarrow> 0 \<le> c)"
  proof (clarify, intro conjI allI impI)
    fix k' v'
    assume "(k', v') \<in> set (t_props (stored t k v))"
    then have mem: "(k', v') \<in> insert (k, v) (set (t_props t))"
      using set_update_subset [of k v "t_props t"] by (auto simp: stored_def)
    from mem assms show "CHR ''N'' \<notin> set k'"
      by (auto simp: goodTable_def)
    fix c
    assume "v' = Number c"
    with mem assms show "0 \<le> c"
      by (auto simp: goodTable_def)
  qed
  moreover from assms(1) have "0 \<le> t_length (stored t k v)"
    by (auto simp: goodTable_def stored_def split: option.splits)
  ultimately show ?thesis
    by (simp add: goodTable_def)
qed



text \<open>
  The loop on a name that holds a count: it returns, with the first free number from
  the count on. The names of the table are the same afterwards.
\<close>

lemma uniqueLoop_count:
  assumes "lc \<noteq> ''length''" and "lc \<noteq> ''__proto__''"
  shows "(\<forall>k. hasKey t' k = hasKey t k) \<Longrightarrow> map_of (t_props t') lc = Some (Number (int c)) \<Longrightarrow>
     \<exists>t''. uniqueLoop t' lc = Some (Inr (Number (int (nextIndex t lc c)), t''))
           \<and> (\<forall>k. hasKey t'' k = hasKey t k)
           \<and> (goodTable t' \<longrightarrow> goodTable t'')"
  using assms
proof (induction t lc c arbitrary: t' rule: nextIndex.induct)
  case (1 t lc c)
  let ?t1 = "stored t' lc (Number (int c + 1))"
  note notLength = "1.prems"(3) and notProto = "1.prems"(4)
  from "1.prems"(2) have key: "hasKey t' lc"
    by (simp add: hasKey_def)
  have step: "postIncrement t' lc = Inr (Number (int c), ?t1)"
    using notLength notProto "1.prems"(2)
    by (simp add: postIncrement_other storedNumber_def increment_def)
  have keys: "\<forall>k. hasKey ?t1 k = hasKey t k"
    using "1.prems"(1) key by (auto simp: hasKey_stored)
  have good: "goodTable t' \<longrightarrow> goodTable ?t1"
  proof
    assume g: "goodTable t'"
    from hasKey_no_N [OF g key] show "goodTable ?t1"
      by (intro goodTable_stored [OF g]) simp_all
  qed
  show ?case
  proof (cases "hasKey t (lc @ ''_'' @ numToString (int c))")
    case True
    have "map_of (t_props ?t1) lc = Some (Number (int (Suc c)))"
      by (simp add: map_of_stored add.commute)
    from "1.IH" [OF True keys this notLength notProto] obtain t''
      where run: "uniqueLoop ?t1 lc = Some (Inr (Number (int (nextIndex t lc (Suc c))), t''))"
        and keys'': "\<forall>k. hasKey t'' k = hasKey t k"
        and good'': "goodTable ?t1 \<longrightarrow> goodTable t''"
      by blast
    have "uniqueLoop t' lc = uniqueLoop ?t1 lc"
      using True keys by (subst uniqueLoop.simps) (simp add: step numberToString_def)
    moreover have "nextIndex t lc c = nextIndex t lc (Suc c)"
      using True by (subst nextIndex.simps) simp
    ultimately show ?thesis
      using run keys'' good'' good by auto
  next
    case False
    have "uniqueLoop t' lc = Some (Inr (Number (int c), ?t1))"
      using False keys by (subst uniqueLoop.simps) (simp add: step numberToString_def)
    moreover have "nextIndex t lc c = c"
      using False by (subst nextIndex.simps) simp
    ultimately show ?thesis
      using keys good by auto
  qed
qed



text \<open>
  The loop on the name \<^verbatim>\<open>__proto__\<close>: the index is 0 in every round and the table
  does not change, so the loop returns in its first round or never.
\<close>

lemma proto_candidate: "numberToString (Number 0) = ''0''"
  by code_simp

lemma uniqueLoop_proto_free:
  "\<not> hasKey t ''__proto___0'' \<Longrightarrow> uniqueLoop t ''__proto__'' = Some (Inr (Number 0, t))"
  by (subst uniqueLoop.simps) (simp add: postIncrement_proto proto_candidate)





subsection \<open>The extension of a text note under markdown\<close>

lemma endsWith_iff: "endsWith s t \<longleftrightarrow> (\<exists>u. s = u @ t)"
proof
  assume "endsWith s t"
  then have "s = take (length s - length t) s @ t"
    by (metis append_take_drop_id endsWith_def)
  then show "\<exists>u. s = u @ t" ..
next
  assume "\<exists>u. s = u @ t"
  then show "endsWith s t"
    by (auto simp: endsWith_def)
qed

lemma toLowerCase_append: "toLowerCase (s @ t) = toLowerCase s @ toLowerCase t"
  by (simp add: toLowerCase_def)

lemma toLowerCase_dot_md: "toLowerCase ''.md'' = ''.md''"
  by (simp add: toLowerCase_def toLowerCaseUnit_def)

lemma chooseExtension_markdown_text:
  "n_type note = ''text'' \<Longrightarrow> chooseExtension X ''markdown'' note = ''md''"
  by (simp add: chooseExtension_def)

lemma inherited_not_md:
  "\<forall>k \<in> set arrayPrototypeNames \<union> set objectPrototypeNames \<union> {''length''}.
     \<not> endsWith k ''.md''"
  by code_simp

lemma hasKey_md:
  assumes "endsWith lc ''.md''"
  shows "hasKey names lc = (map_of (t_props names) lc \<noteq> None)"
    and "lc \<noteq> ''length''" and "lc \<noteq> ''__proto__''"
proof -
  from assms inherited_not_md
  have out: "lc \<notin> set arrayPrototypeNames \<union> set objectPrototypeNames \<union> {''length''}"
    by blast
  then show "hasKey names lc = (map_of (t_props names) lc \<noteq> None)"
    by (auto simp: hasKey_def)
  from out show "lc \<noteq> ''length''"
    by simp
  from out show "lc \<noteq> ''__proto__''"
    by (auto simp: objectPrototypeNames_def)
qed

text \<open>
  C9, as amended. For a text note exported under markdown, whatever its stored mime
  type: the candidate name is the base name itself when the base name already ends
  with ".md" without regard to case, and the base name followed by ".md" when the
  lowercased base name does not end with "md". The candidate ends with ".md" without
  regard to case. The assigned data file name is the candidate when its lowercased
  form is not yet in the name table. Otherwise the table holds the lowercased
  candidate as a name of its own, and where it holds a count \<open>c\<close> under it, the
  assigned name is the candidate followed by "_" and a number: the first number from
  \<open>c\<close> on for which the lowercased candidate with that suffix is not in the table.
  The suffix comes after the extension.
\<close>

theorem markdown_text_data_file_name:
  assumes "n_type note = ''text''"
    and "endsWith (toLowerCase baseFileName) ''.md'' \<or> \<not> endsWith (toLowerCase baseFileName) ''md''"
    and "candidate =
           (if endsWith (toLowerCase baseFileName) ''.md'' then baseFileName
            else baseFileName @ ''.md'')"
  shows "endsWith (toLowerCase candidate) ''.md''
    \<and> (\<not> hasKey names (toLowerCase candidate) \<longrightarrow>
          map_sum id fst (getDataFileName X ''markdown'' note baseFileName names) = Inr candidate)
    \<and> (hasKey names (toLowerCase candidate) \<longrightarrow>
          (\<exists>v. map_of (t_props names) (toLowerCase candidate) = Some v)
          \<and> (\<forall>c. map_of (t_props names) (toLowerCase candidate) = Some (Number (int c)) \<longrightarrow>
                map_sum id fst (getDataFileName X ''markdown'' note baseFileName names) =
                  Inr (candidate @ ''_''
                         @ numToString (int (nextIndex names (toLowerCase candidate) c)))))"
proof -
  let ?lc = "toLowerCase candidate"
  have dotted: "endsWith (toLowerCase baseFileName) ''.md'' \<Longrightarrow> endsWith (toLowerCase baseFileName) ''md''"
  proof -
    assume "endsWith (toLowerCase baseFileName) ''.md''"
    then obtain u where "toLowerCase baseFileName = u @ ''.md''"
      by (auto simp: endsWith_iff)
    then have "toLowerCase baseFileName = (u @ ''.'') @ ''md''"
      by simp
    then show ?thesis
      unfolding endsWith_iff by blast
  qed
  have cand: "withExtension baseFileName (chooseExtension X ''markdown'' note) = candidate"
    using assms dotted by (auto simp: withExtension_def chooseExtension_markdown_text)
  have ends: "endsWith ?lc ''.md''"
    using assms(3) by (auto simp: endsWith_iff toLowerCase_append toLowerCase_dot_md)
  note own = hasKey_md [OF ends]
  have run: "getDataFileName X ''markdown'' note baseFileName names =
      getUniqueFilename names candidate"
    by (simp add: getDataFileName_def cand)
  have free: "map_sum id fst (getUniqueFilename names candidate) = Inr candidate"
    if "\<not> hasKey names ?lc"
    using that own(2,3) by (simp add: getUniqueFilename_def Let_def putNumber_other)
  have taken: "map_sum id fst (getUniqueFilename names candidate) =
      Inr (candidate @ ''_'' @ numToString (int (nextIndex names ?lc c)))"
    if "map_of (t_props names) ?lc = Some (Number (int c))" for c
  proof -
    from that have key: "hasKey names ?lc"
      by (simp add: own(1))
    from uniqueLoop_count [OF own(2,3) _ that, of names] obtain t''
      where "uniqueLoop names ?lc = Some (Inr (Number (int (nextIndex names ?lc c)), t''))"
      by blast
    with key show ?thesis
      by (simp add: getUniqueFilename_def Let_def numberToString_def)
  qed
  show ?thesis
    using ends free taken by (auto simp: run own(1))
qed

definition pngTextNote :: Note where
  "pngTextNote = (textNote ''n'' ''Notes'' ''text'' [])\<lparr>n_mime := ''image/png''\<rparr>"

definition notesTable :: nameTable where
  "notesTable = \<lparr> t_props = [(''notes.md'', Number 1)], t_length = 0 \<rparr>"

theorem markdown_text_data_file_name_witness:
  "map_sum id fst (getDataFileName plainLibs ''markdown'' pngTextNote ''Notes'' emptyArray)
     = Inr ''Notes.md''
   \<and> map_sum id fst (getDataFileName plainLibs ''markdown'' pngTextNote ''Notes'' notesTable)
       = Inr ''Notes.md_1''
   \<and> map_sum id fst (getDataFileName plainLibs ''markdown'' pngTextNote ''Readme.MD'' emptyArray)
       = Inr ''Readme.MD''"
proof -
  have isText: "n_type pngTextNote = ''text''"
    by (simp add: pngTextNote_def textNote_def)
  have base: "endsWith (toLowerCase ''Notes'') ''.md'' \<or> \<not> endsWith (toLowerCase ''Notes'') ''md''"
    by code_simp
  have cand: "''Notes.md'' =
      (if endsWith (toLowerCase ''Notes'') ''.md'' then ''Notes'' else ''Notes'' @ ''.md'')"
    by code_simp
  have free: "\<not> hasKey emptyArray (toLowerCase ''Notes.md'')"
    by code_simp
  have taken: "hasKey notesTable (toLowerCase ''Notes.md'')"
    by code_simp
  have count: "map_of (t_props notesTable) (toLowerCase ''Notes.md'') = Some (Number (int 1))"
    by code_simp
  have idx: "''Notes.md'' @ ''_''
      @ numToString (int (nextIndex notesTable (toLowerCase ''Notes.md'') 1)) = ''Notes.md_1''"
    by code_simp
  from markdown_text_data_file_name [OF isText base cand, of emptyArray plainLibs] free
  have first: "map_sum id fst (getDataFileName plainLibs ''markdown'' pngTextNote ''Notes'' emptyArray)
      = Inr ''Notes.md''"
    by blast
  from markdown_text_data_file_name [OF isText base cand, of notesTable plainLibs] taken count
  have "map_sum id fst (getDataFileName plainLibs ''markdown'' pngTextNote ''Notes'' notesTable) =
      Inr (''Notes.md'' @ ''_''
        @ numToString (int (nextIndex notesTable (toLowerCase ''Notes.md'') 1)))"
    by blast
  then have second:
    "map_sum id fst (getDataFileName plainLibs ''markdown'' pngTextNote ''Notes'' notesTable)
      = Inr ''Notes.md_1''"
    by (simp only: idx)
  have base': "endsWith (toLowerCase ''Readme.MD'') ''.md''
      \<or> \<not> endsWith (toLowerCase ''Readme.MD'') ''md''"
    by code_simp
  have cand': "''Readme.MD'' =
      (if endsWith (toLowerCase ''Readme.MD'') ''.md'' then ''Readme.MD''
       else ''Readme.MD'' @ ''.md'')"
    by code_simp
  have free': "\<not> hasKey emptyArray (toLowerCase ''Readme.MD'')"
    by code_simp
  from markdown_text_data_file_name [OF isText base' cand', of emptyArray plainLibs] free'
  have third: "map_sum id fst
      (getDataFileName plainLibs ''markdown'' pngTextNote ''Readme.MD'' emptyArray) = Inr ''Readme.MD''"
    by blast
  show ?thesis
    using first second third by simp
qed

definition takenTable :: nameTable where
  "takenTable = \<lparr> t_props = [(''a.md'', Number 1)], t_length = 0 \<rparr>"

text \<open>
  C9 as stated promises a name that ends with ".md": after the sibling "A" has taken
  "a.md", the text note "a" gets "a.md_1" under markdown.
\<close>

theorem markdown_text_data_file_name_counterexample:
  "map_sum id fst
     (getDataFileName plainLibs ''markdown'' (textNote ''n2'' ''a'' ''bye'' []) ''a'' takenTable)
     = Inr ''a.md_1''
   \<and> \<not> endsWith ''a.md_1'' ''.md''"
  by code_simp

subsection \<open>The errors of the name functions\<close>





lemma getUniqueFilename_nonempty:
  "getUniqueFilename t fileName = Inr (name, t') \<Longrightarrow> fileName \<noteq> [] \<Longrightarrow> name \<noteq> []"
  by (auto simp: getUniqueFilename_def Let_def split: if_splits option.splits sum.splits)

subsection \<open>The build pass returns on every repository\<close>

text \<open>
  The names a note that is visited for the first time is given: lines 122-128 as one
  step. \<open>getNote_Suc\<close> restates the equation of \<open>getNote\<close> with it.
\<close>

definition namedMeta ::
  "externals \<Rightarrow> string \<Rightarrow> Branch \<Rightarrow> Note \<Rightarrow> nameTable \<Rightarrow> error + (NoteMeta \<times> nameTable)" where
  "namedMeta X format branch note existingFileNames =
     (case assignDataFileName X format branch note (newMeta format branch note)
             existingFileNames of
        Inl e \<Rightarrow> Inl e
      | Inr (meta1, names1) \<Rightarrow>
          if length (n_childBranches note) > 0
          then assignDirFileName branch note meta1 names1
          else Inr (meta1, names1))"

lemma getNote_Suc:
  "getNote (Suc d) X repo format branch names metas =
     (case repositoryGetNote repo (b_noteId branch) of
        None \<Rightarrow> Inl TypeError
      | Some note \<Rightarrow>
          if hasLabel note ''excludeFromExport'' then Inr (None, names, metas)
          else if inObject metas (n_noteId note) then
            (case cloneStub X branch note names of
               Inl e \<Rightarrow> Inl e
             | Inr (stub, names1) \<Rightarrow> Inr (Some stub, names1, metas))
          else
            (case namedMeta X format branch note names of
               Inl e \<Rightarrow> Inl e
             | Inr (meta, names1) \<Rightarrow>
                 if n_childBranches note = [] then
                   Inr (Some (Full meta []), names1, metas(n_noteId note \<mapsto> meta))
                 else
                   (case getChildren d X repo format (n_childBranches note) names1
                           (metas(n_noteId note \<mapsto> meta)) of
                      Inl e \<Rightarrow> Inl e
                    | Inr (children, names3, metas3) \<Rightarrow>
                        Inr (Some (Full meta children), names3, metas3))))"
  by (auto simp: namedMeta_def split: prod.splits option.splits sum.splits)

declare getNote.simps(2) [simp del]

lemma repositoryGetNote_Some:
  "repositoryGetNote repo noteId = Some note \<Longrightarrow> note \<in> set repo \<and> n_noteId note = noteId"
  by (auto simp: repositoryGetNote_def find_Some_iff in_set_conv_nth)


lemma cloneStub_node:
  "cloneStub X branch n names = Inr (stub, names1) \<Longrightarrow>
     \<exists>c. stub = Clone c \<and> c_noteId c = n_noteId n"
  by (auto simp: cloneStub_def Let_def split: sum.splits)















subsection \<open>The loop of getUniqueFilename within the build pass\<close>




















subsection \<open>First occurrences and clone stubs in a manifest\<close>

text \<open>
  The notes with full metadata in a manifest, in the order of the traversal (a node
  before its children, the children in their order).
\<close>

fun fullIds :: "node \<Rightarrow> string list"
  and fullIdsL :: "node list \<Rightarrow> string list" where
  "fullIds (Clone c) = []"
| "fullIds (Full m children) = m_noteId m # fullIdsL children"
| "fullIdsL [] = []"
| "fullIdsL (child # rest) = fullIds child @ fullIdsL rest"

text \<open>
  \<open>firstVisits S n\<close>: walking \<open>n\<close> in the order of the traversal with the names
  \<open>S\<close> in the map before (own or inherited), every node with full metadata is a note
  whose id is not in the map so far, and every clone stub is of a note whose id is.
\<close>

fun firstVisits :: "string set \<Rightarrow> node \<Rightarrow> bool"
  and firstVisitsL :: "string set \<Rightarrow> node list \<Rightarrow> bool" where
  "firstVisits S (Clone c) = (c_noteId c \<in> S)"
| "firstVisits S (Full m children) =
     (m_noteId m \<notin> S \<and> firstVisitsL (insert (m_noteId m) S) children)"
| "firstVisitsL S [] = True"
| "firstVisitsL S (child # rest) =
     (firstVisits S child \<and> firstVisitsL (S \<union> set (fullIds child)) rest)"

text \<open>
  The nodes of a manifest with the path of the directory that holds them, as
  \<open>saveNote\<close> computes it: the full nodes (with their children) and the clone stubs.
\<close>

fun fullPlaces :: "node \<Rightarrow> string \<Rightarrow> (string \<times> NoteMeta \<times> node list) list"
  and fullPlacesL :: "node list \<Rightarrow> string \<Rightarrow> (string \<times> NoteMeta \<times> node list) list" where
  "fullPlaces (Clone c) path = []"
| "fullPlaces (Full m children) path =
     (path, m, children) # fullPlacesL children (path @ ''/'' @ jsString (m_dirFileName m))"
| "fullPlacesL [] path = []"
| "fullPlacesL (child # rest) path = fullPlaces child path @ fullPlacesL rest path"

fun clonePlaces :: "node \<Rightarrow> string \<Rightarrow> (string \<times> CloneMeta) list"
  and clonePlacesL :: "node list \<Rightarrow> string \<Rightarrow> (string \<times> CloneMeta) list" where
  "clonePlaces (Clone c) path = [(path, c)]"
| "clonePlaces (Full m children) path =
     clonePlacesL children (path @ ''/'' @ jsString (m_dirFileName m))"
| "clonePlacesL [] path = []"
| "clonePlacesL (child # rest) path = clonePlaces child path @ clonePlacesL rest path"

text \<open>
  A data file name, where present, is not empty, and a node without one has a
  directory name.
\<close>

fun wellNamed :: "node \<Rightarrow> bool"
  and wellNamedL :: "node list \<Rightarrow> bool" where
  "wellNamed (Clone c) = True"
| "wellNamed (Full m children) =
     (m_dataFileName m \<noteq> Some [] \<and> (m_dataFileName m = None \<longrightarrow> m_dirFileName m \<noteq> None)
      \<and> wellNamedL children)"
| "wellNamedL [] = True"
| "wellNamedL (child # rest) = (wellNamed child \<and> wellNamedL rest)"

text \<open>
  What \<open>saveNote\<close> needs of a node to run through: the note of a full node is in the
  repository, and its format is markdown only in a markdown export.
\<close>

fun emittable :: "repository \<Rightarrow> string \<Rightarrow> node \<Rightarrow> bool"
  and emittableL :: "repository \<Rightarrow> string \<Rightarrow> node list \<Rightarrow> bool" where
  "emittable repo format (Clone c) = True"
| "emittable repo format (Full m children) =
     (repositoryGetNote repo (m_noteId m) \<noteq> None
      \<and> (m_format m = Some ''markdown'' \<longrightarrow> format = ''markdown'')
      \<and> emittableL repo format children)"
| "emittableL repo format [] = True"
| "emittableL repo format (child # rest) =
     (emittable repo format child \<and> emittableL repo format rest)"

lemma filterNode_fullIds:
  "fullIds (filterNode M n) = fullIds n"
  "fullIdsL (map (filterNode M) ns) = fullIdsL ns"
  by (induction n and ns rule: fullIds_fullIdsL.induct) (simp_all add: filterMeta_def)

lemma filterNode_firstVisits:
  "firstVisits S (filterNode M n) = firstVisits S n"
  "firstVisitsL S (map (filterNode M) ns) = firstVisitsL S ns"
  by (induction S n and S ns rule: firstVisits_firstVisitsL.induct)
    (simp_all add: filterMeta_def filterNode_fullIds)

lemma filterNode_wellNamed:
  "wellNamed (filterNode M n) = wellNamed n"
  "wellNamedL (map (filterNode M) ns) = wellNamedL ns"
  by (induction n and ns rule: wellNamed_wellNamedL.induct) (simp_all add: filterMeta_def)

lemma filterNode_emittable:
  "emittable repo format (filterNode M n) = emittable repo format n"
  "emittableL repo format (map (filterNode M) ns) = emittableL repo format ns"
  by (induction n and ns rule: fullIds_fullIdsL.induct) (simp_all add: filterMeta_def)

lemma wellNamed_fullPlaces:
  "wellNamed n \<Longrightarrow> (dir, m, cs) \<in> set (fullPlaces n path) \<Longrightarrow>
     m_dataFileName m \<noteq> Some [] \<and> (m_dataFileName m = None \<longrightarrow> m_dirFileName m \<noteq> None)"
  "wellNamedL ns \<Longrightarrow> (dir, m, cs) \<in> set (fullPlacesL ns path) \<Longrightarrow>
     m_dataFileName m \<noteq> Some [] \<and> (m_dataFileName m = None \<longrightarrow> m_dirFileName m \<noteq> None)"
  by (induction n path and ns path rule: fullPlaces_fullPlacesL.induct) auto

lemma firstVisits_distinct:
  "firstVisits S n \<Longrightarrow> distinct (fullIds n) \<and> set (fullIds n) \<inter> S = {}"
  "firstVisitsL S ns \<Longrightarrow> distinct (fullIdsL ns) \<and> set (fullIdsL ns) \<inter> S = {}"
  by (induction S n and S ns rule: firstVisits_firstVisitsL.induct) auto

subsection \<open>What the build pass guarantees about its manifest\<close>

lemma chooseExtension_nonempty: "chooseExtension X format n \<noteq> []"
  by (simp add: chooseExtension_def split: option.splits)

lemma withExtension_nonempty: "extension \<noteq> [] \<Longrightarrow> withExtension baseFileName extension \<noteq> []"
  by (auto simp: withExtension_def endsWith_def toLowerCase_def)

lemma getDataFileName_nonempty:
  "getDataFileName X format n baseFileName names = Inr (name, names1) \<Longrightarrow> name \<noteq> []"
  unfolding getDataFileName_def
  by (erule getUniqueFilename_nonempty) (rule withExtension_nonempty, rule chooseExtension_nonempty)

lemma namedMeta_result:
  assumes "namedMeta X format branch n names = Inr (meta, names1)"
  shows "m_noteId meta = n_noteId n"
    and "m_format meta = (if n_type n = ''text'' then Some format else None)"
    and "m_dataFileName meta \<noteq> Some []"
    and "m_dataFileName meta = None \<longrightarrow> n_childBranches n \<noteq> [] \<and> m_dirFileName meta \<noteq> None"
proof -
  let ?data = "assignDataFileName X format branch n (newMeta format branch n) names"
  from assms obtain meta1 names0 where data: "?data = Inr (meta1, names0)"
    and dir: "meta = (if n_childBranches n \<noteq> [] then meta1\<lparr>m_dirFileName := m_dirFileName meta\<rparr>
                      else meta1)"
    and named: "n_childBranches n \<noteq> [] \<longrightarrow> m_dirFileName meta \<noteq> None"
    by (auto simp: namedMeta_def assignDirFileName_def split: sum.splits if_splits)
  from data have id1: "m_noteId meta1 = n_noteId n"
    and format1: "m_format meta1 = (if n_type n = ''text'' then Some format else None)"
    and name1: "m_dataFileName meta1 \<noteq> Some []"
    and none1: "m_dataFileName meta1 = None \<longrightarrow> n_childBranches n \<noteq> []"
    by (auto simp: assignDataFileName_def newMeta_def split: sum.splits if_splits
        dest: getDataFileName_nonempty)
  have same: "m_noteId meta = m_noteId meta1" "m_format meta = m_format meta1"
    "m_dataFileName meta = m_dataFileName meta1"
    by (subst dir, simp)+
  from id1 same show "m_noteId meta = n_noteId n"
    by simp
  from format1 same show "m_format meta = (if n_type n = ''text'' then Some format else None)"
    by simp
  from name1 same show "m_dataFileName meta \<noteq> Some []"
    by simp
  from none1 named same
  show "m_dataFileName meta = None \<longrightarrow> n_childBranches n \<noteq> [] \<and> m_dirFileName meta \<noteq> None"
    by simp
qed

definition builtNode ::
  "repository \<Rightarrow> string \<Rightarrow> metaMap \<Rightarrow> node option \<Rightarrow> metaMap \<Rightarrow> bool" where
  "builtNode repo format metas r metas' =
     (case r of
        None \<Rightarrow> dom metas' = dom metas
      | Some n \<Rightarrow>
          firstVisits (dom metas \<union> set objectPrototypeNames) n \<and> wellNamed n
          \<and> emittable repo format n \<and> dom metas' = dom metas \<union> set (fullIds n))"

definition builtNodes ::
  "repository \<Rightarrow> string \<Rightarrow> metaMap \<Rightarrow> node list \<Rightarrow> metaMap \<Rightarrow> bool" where
  "builtNodes repo format metas ns metas' =
     (firstVisitsL (dom metas \<union> set objectPrototypeNames) ns \<and> wellNamedL ns
      \<and> emittableL repo format ns \<and> dom metas' = dom metas \<union> set (fullIdsL ns))"

lemma getChildren_built_step:
  assumes step: "\<And>branch names metas r names' metas'.
      getNote d X repo format branch names metas = Inr (r, names', metas') \<Longrightarrow>
      builtNode repo format metas r metas'"
  shows "getChildren d X repo format branches names metas = Inr (ns, names', metas') \<Longrightarrow>
      builtNodes repo format metas ns metas'"
proof (induction branches arbitrary: names metas ns names' metas')
  case Nil
  then show ?case by (simp add: builtNodes_def)
next
  case (Cons b rest)
  from Cons.prems obtain r names1 metas1 children
    where first: "getNote d X repo format b names metas = Inr (r, names1, metas1)"
      and others: "getChildren d X repo format rest names1 metas1 = Inr (children, names', metas')"
      and ns: "ns = (case r of None \<Rightarrow> children | Some n \<Rightarrow> n # children)"
    by (auto split: sum.splits)
  from step [OF first] have one: "builtNode repo format metas r metas1" .
  from Cons.IH [OF others] have more: "builtNodes repo format metas1 children metas'" .
  show ?case
  proof (cases r)
    case None
    with one more ns show ?thesis
      by (simp add: builtNode_def builtNodes_def)
  next
    case (Some n)
    with one have grown: "dom metas1 = dom metas \<union> set (fullIds n)"
      by (simp add: builtNode_def)
    have "dom metas1 \<union> set objectPrototypeNames =
        dom metas \<union> set objectPrototypeNames \<union> set (fullIds n)"
      unfolding grown by blast
    with Some one more ns show ?thesis
      by (auto simp: builtNode_def builtNodes_def)
  qed
qed

lemma getNote_built:
  "getNote d X repo format branch names metas = Inr (r, names', metas') \<Longrightarrow>
     builtNode repo format metas r metas'"
proof (induction d arbitrary: branch names metas r names' metas')
  case 0
  then show ?case by simp
next
  case (Suc d)
  from Suc.prems obtain nt where found: "repositoryGetNote repo (b_noteId branch) = Some nt"
    by (auto simp: getNote_Suc split: option.splits)
  then have again: "repositoryGetNote repo (n_noteId nt) = Some nt"
    using repositoryGetNote_Some by fastforce
  consider (excluded) "hasLabel nt ''excludeFromExport''"
    | (clone) "\<not> hasLabel nt ''excludeFromExport''" "inObject metas (n_noteId nt)"
    | (first) "\<not> hasLabel nt ''excludeFromExport''" "\<not> inObject metas (n_noteId nt)"
    by blast
  then show ?case
  proof cases
    case excluded
    with Suc.prems found show ?thesis
      by (auto simp: getNote_Suc builtNode_def)
  next
    case clone
    with Suc.prems found obtain stub names1
      where stub: "cloneStub X branch nt names = Inr (stub, names1)"
        and r: "r = Some stub" and metas': "metas' = metas"
      by (auto simp: getNote_Suc split: sum.splits)
    from cloneStub_node [OF stub] obtain c where "stub = Clone c" "c_noteId c = n_noteId nt"
      by blast
    with clone(2) r metas' show ?thesis
      by (auto simp: builtNode_def inObject_def)
  next
    case first
    then have fresh: "n_noteId nt \<notin> dom metas \<union> set objectPrototypeNames"
      by (auto simp: inObject_def)
    from Suc.prems found first obtain meta names1
      where named: "namedMeta X format branch nt names = Inr (meta, names1)"
      by (auto simp: getNote_Suc split: sum.splits)
    note facts = namedMeta_result [OF named]
    let ?metas = "metas(n_noteId nt \<mapsto> meta)"
    show ?thesis
    proof (cases "n_childBranches nt = []")
      case True
      with Suc.prems found first named
      have r: "r = Some (Full meta [])" and metas': "metas' = ?metas"
        by (auto simp: getNote_Suc)
      show ?thesis
        using fresh facts True
        by (auto simp: r metas' builtNode_def again)
    next
      case False
      with Suc.prems found first named obtain children
        where sub: "getChildren d X repo format (n_childBranches nt) names1 ?metas =
            Inr (children, names', metas')"
          and r: "r = Some (Full meta children)"
        by (auto simp: getNote_Suc split: sum.splits)
      have "builtNodes repo format ?metas children metas'"
      proof (rule getChildren_built_step [OF _ sub])
        fix b' n' m' r' n'' m''
        assume "getNote d X repo format b' n' m' = Inr (r', n'', m'')"
        then show "builtNode repo format m' r' m''"
          by (rule Suc.IH)
      qed
      moreover have "dom ?metas \<union> set objectPrototypeNames =
          insert (n_noteId nt) (dom metas \<union> set objectPrototypeNames)"
        by auto
      ultimately show ?thesis
        using fresh facts
        by (auto simp: r builtNode_def builtNodes_def again)
    qed
  qed
qed

lemma buildManifest_built:
  assumes "buildManifest X repo branch format = Inr (Some root)"
  shows "firstVisits (set objectPrototypeNames) root \<and> wellNamed root
    \<and> emittable repo format root"
proof -
  from assms obtain n names metas
    where run: "getNote (buildFuel repo) X repo format branch emptyArray Map.empty =
        Inr (Some n, names, metas)"
      and root: "root = filterNode metas n"
    by (auto simp: buildManifest_def split: sum.splits)
  from getNote_built [OF run] show ?thesis
    by (simp add: builtNode_def root filterNode_firstVisits filterNode_wellNamed
        filterNode_emittable)
qed

subsection \<open>What saveNote records and writes\<close>

text \<open>
  \<open>recorded\<close>: the path map holds, for each full node, the path of its directory
  followed by its data file name or else its directory name (line 170).
  \<open>written\<close>: the pack holds the data file of each full node that has a data file
  name, and the directory of each full node that has children (lines 172-181).
  \<open>placeholders\<close>: the pack holds the entry of each clone stub (lines 162-164); its
  content names the path recorded for the note, or, for a note id that is the name of
  an inherited member and has no path, the text of that member.
\<close>

definition recorded :: "pathMap \<Rightarrow> (string \<times> NoteMeta \<times> node list) list \<Rightarrow> bool" where
  "recorded notePaths places =
     (\<forall>(dir, m, children) \<in> set places.
        notePaths (m_noteId m) = Some (dir @ ''/'' @ jsString (dataOrDirFileName m)))"

definition written :: "entry list \<Rightarrow> (string \<times> NoteMeta \<times> node list) list \<Rightarrow> bool" where
  "written pack places =
     (\<forall>(dir, m, children) \<in> set places.
        (truthy (m_dataFileName m) \<longrightarrow>
           (\<exists>content. FileEntry (dir @ ''/'' @ jsString (m_dataFileName m))
                        (byteLength content) content \<in> set pack))
        \<and> (children \<noteq> [] \<longrightarrow>
              DirectoryEntry (dir @ ''/'' @ jsString (m_dirFileName m)) \<in> set pack))"

definition cloneEntry :: "string \<Rightarrow> CloneMeta \<Rightarrow> string \<Rightarrow> entry" where
  "cloneEntry dir c p =
     FileEntry (dir @ ''/'' @ c_dataFileName c)
       (byteLength (''Note is present at '' @ p)) (''Note is present at '' @ p)"

definition placeholders ::
  "externals \<Rightarrow> pathMap \<Rightarrow> entry list \<Rightarrow> (string \<times> CloneMeta) list \<Rightarrow> bool" where
  "placeholders X notePaths pack places =
     (\<forall>(dir, c) \<in> set places.
        if c_noteId c \<in> set objectPrototypeNames
        then cloneEntry dir c (builtinText X (c_noteId c)) \<in> set pack
        else (\<exists>p. notePaths (c_noteId c) = Some p \<and> cloneEntry dir c p \<in> set pack))"

definition emitted ::
  "externals \<Rightarrow> pathMap \<Rightarrow> entry list \<Rightarrow> (string \<times> NoteMeta \<times> node list) list
    \<Rightarrow> (string \<times> CloneMeta) list \<Rightarrow> string list \<Rightarrow> pathMap \<Rightarrow> entry list \<Rightarrow> bool" where
  "emitted X P pack fulls clones ids P' pack' =
     (dom P' = dom P \<union> set ids \<and> P \<subseteq>\<^sub>m P' \<and> set pack \<subseteq> set pack'
      \<and> recorded P' fulls \<and> written pack' fulls \<and> placeholders X P' pack' clones)"

lemma recorded_mono: "recorded P places \<Longrightarrow> P \<subseteq>\<^sub>m P' \<Longrightarrow> recorded P' places"
  unfolding recorded_def map_le_def by (fastforce simp: dom_def)

lemma placeholders_mono:
  "placeholders X P pack places \<Longrightarrow> P \<subseteq>\<^sub>m P' \<Longrightarrow> set pack \<subseteq> set pack' \<Longrightarrow>
     placeholders X P' pack' places"
  unfolding placeholders_def map_le_def by (fastforce simp: dom_def split: if_splits)

lemma written_mono: "written pack places \<Longrightarrow> set pack \<subseteq> set pack' \<Longrightarrow> written pack' places"
  unfolding written_def by fast

lemma recorded_append: "recorded P (xs @ ys) = (recorded P xs \<and> recorded P ys)"
  unfolding recorded_def by (simp add: ball_Un)

lemma written_append: "written pack (xs @ ys) = (written pack xs \<and> written pack ys)"
  unfolding written_def by (simp add: ball_Un)

lemma placeholders_append:
  "placeholders X P pack (xs @ ys) = (placeholders X P pack xs \<and> placeholders X P pack ys)"
  unfolding placeholders_def by (simp add: ball_Un)

lemma emitted_trans:
  assumes "emitted X P pack fulls1 clones1 ids1 P1 pack1"
    and "emitted X P1 pack1 fulls2 clones2 ids2 P' pack'"
  shows "emitted X P pack (fulls1 @ fulls2) (clones1 @ clones2) (ids1 @ ids2) P' pack'"
proof -
  from assms have le: "P1 \<subseteq>\<^sub>m P'" and sub: "set pack1 \<subseteq> set pack'"
    by (simp_all add: emitted_def)
  from assms have "recorded P' fulls1" "placeholders X P' pack' clones1" "written pack' fulls1"
    using recorded_mono [OF _ le] placeholders_mono [OF _ le sub] written_mono [OF _ sub]
    by (simp_all add: emitted_def)
  moreover from assms have "P \<subseteq>\<^sub>m P'"
    using map_le_trans by (auto simp: emitted_def)
  ultimately show ?thesis
    using assms
    by (auto simp: emitted_def recorded_append placeholders_append written_append)
qed

lemma proto_inherited: "''__proto__'' \<in> set objectPrototypeNames"
  by (simp add: objectPrototypeNames_def)

lemma saveNote_clone:
  "saveNote X repo format (Clone c) path (P, pack) =
     Inr (P, pack @ [cloneEntry path c (pathText X P (c_noteId c))])"
  by (simp add: Let_def cloneEntry_def packEntry_def)

lemma saveNote_emitted:
  "saveNote X repo format n path (P, pack) = Inr (P', pack') \<Longrightarrow>
     firstVisits (dom P \<union> set objectPrototypeNames) n \<Longrightarrow>
     dom P \<inter> set objectPrototypeNames = {} \<Longrightarrow>
     emitted X P pack (fullPlaces n path) (clonePlaces n path) (fullIds n) P' pack'"
  "saveChildren X repo format ns path (P, pack) = Inr (P', pack') \<Longrightarrow>
     firstVisitsL (dom P \<union> set objectPrototypeNames) ns \<Longrightarrow>
     dom P \<inter> set objectPrototypeNames = {} \<Longrightarrow>
     emitted X P pack (fullPlacesL ns path) (clonePlacesL ns path) (fullIdsL ns) P' pack'"
proof (induction n and ns arbitrary: path P pack P' pack' and path P pack P' pack'
    rule: fullIds_fullIdsL.induct)
  case (1 c)
  from "1.prems"(1) have same: "P' = P"
    and pack': "pack' = pack @ [cloneEntry path c (pathText X P (c_noteId c))]"
    by (auto simp only: saveNote_clone sum.inject prod.inject)
  have "placeholders X P pack' [(path, c)]"
  proof (cases "c_noteId c \<in> set objectPrototypeNames")
    case True
    with "1.prems"(3) have "P (c_noteId c) = None"
      by (auto simp: dom_def)
    then have "pathText X P (c_noteId c) = builtinText X (c_noteId c)"
      using True by (simp add: pathText_def)
    with True show ?thesis
      by (simp add: placeholders_def pack')
  next
    case False
    with "1.prems"(2) obtain p where p: "P (c_noteId c) = Some p"
      by auto
    then have "pathText X P (c_noteId c) = p"
      by (simp add: pathText_def)
    with False p show ?thesis
      by (simp add: placeholders_def pack')
  qed
  then show ?case
    by (auto simp: emitted_def recorded_def written_def same pack')
next
  case (2 m children)
  from "2.prems"(1) obtain nt where found: "repositoryGetNote repo (m_noteId m) = Some nt"
    by (auto split: option.splits)
  then have nid: "n_noteId nt = m_noteId m"
    using repositoryGetNote_Some by blast
  from "2.prems"(2) have fresh: "m_noteId m \<notin> dom P" and own: "m_noteId m \<notin> set objectPrototypeNames"
    by simp_all
  from own proto_inherited have notProto: "m_noteId m \<noteq> ''__proto__''"
    by auto
  define P1 where "P1 = P(m_noteId m \<mapsto> path @ ''/'' @ jsString (dataOrDirFileName m))"
  have set1: "setPath P (n_noteId nt) (path @ ''/'' @ jsString (dataOrDirFileName m)) = P1"
    using notProto by (simp add: setPath_def nid P1_def)
  define dirPath where "dirPath = path @ ''/'' @ jsString (m_dirFileName m)"
  define pack2 where
    "pack2 = (\<lambda>pack1. if children = [] then pack1 else pack1 @ [DirectoryEntry dirPath])"
  have "\<exists>pack1. set pack \<subseteq> set pack1
      \<and> (truthy (m_dataFileName m) \<longrightarrow>
            (\<exists>content. FileEntry (path @ ''/'' @ jsString (m_dataFileName m))
                         (byteLength content) content \<in> set pack1))
      \<and> saveChildren X repo format children dirPath (P1, pack2 pack1) = Inr (P', pack')"
  proof (cases "truthy (m_dataFileName m)")
    case True
    with "2.prems"(1) found obtain content
      where content: "prepareContent X format nt (m_format m) = Inr content"
      by (auto split: sum.splits)
    let ?pack1 = "pack @ [FileEntry (path @ ''/'' @ jsString (m_dataFileName m))
        (byteLength content) content]"
    have "set pack \<subseteq> set ?pack1"
      by auto
    moreover have "FileEntry (path @ ''/'' @ jsString (m_dataFileName m))
        (byteLength content) content \<in> set ?pack1"
      by simp
    moreover from "2.prems"(1) found True content set1
    have "saveChildren X repo format children dirPath (P1, pack2 ?pack1) = Inr (P', pack')"
      by (cases "children = []")
        (simp_all add: dirPath_def pack2_def Let_def packEntry_def)
    ultimately show ?thesis
      by blast
  next
    case False
    with "2.prems"(1) found set1
    have "saveChildren X repo format children dirPath (P1, pack2 pack) = Inr (P', pack')"
      by (cases "children = []") (simp_all add: dirPath_def pack2_def Let_def)
    with False show ?thesis
      by blast
  qed
  then obtain pack1 where pack1: "set pack \<subseteq> set pack1"
    and dataEntry: "truthy (m_dataFileName m) \<longrightarrow>
        (\<exists>content. FileEntry (path @ ''/'' @ jsString (m_dataFileName m))
                     (byteLength content) content \<in> set pack1)"
    and rest: "saveChildren X repo format children dirPath (P1, pack2 pack1) = Inr (P', pack')"
    by blast
  have keys1: "dom P1 \<union> set objectPrototypeNames =
      insert (m_noteId m) (dom P \<union> set objectPrototypeNames)"
    by (auto simp: P1_def)
  with "2.prems"(2) have sub: "firstVisitsL (dom P1 \<union> set objectPrototypeNames) children"
    by simp
  have disjoint1: "dom P1 \<inter> set objectPrototypeNames = {}"
    using "2.prems"(3) own by (auto simp: P1_def)
  have inc: "set pack1 \<subseteq> set (pack2 pack1)"
    by (auto simp: pack2_def)
  have dirEntry: "children \<noteq> [] \<longrightarrow> DirectoryEntry dirPath \<in> set (pack2 pack1)"
    by (simp add: pack2_def)
  have "written (pack2 pack1) [(path, m, children)]"
    unfolding written_def using dataEntry inc dirEntry by (auto simp: dirPath_def)
  then have own: "emitted X P pack [(path, m, children)] [] [m_noteId m] P1 (pack2 pack1)"
    using fresh pack1 inc
    by (auto simp: emitted_def P1_def recorded_def placeholders_def map_le_def)
  from "2.IH" [OF rest sub disjoint1]
  have below: "emitted X P1 (pack2 pack1) (fullPlacesL children dirPath)
      (clonePlacesL children dirPath) (fullIdsL children) P' pack'" .
  from emitted_trans [OF own below] show ?case
    by (simp add: dirPath_def)
next
  case 3
  then show ?case
    by (simp add: emitted_def recorded_def written_def placeholders_def)
next
  case (4 child rest)
  from "4.prems"(1) obtain P1 pack1
    where first: "saveNote X repo format child path (P, pack) = Inr (P1, pack1)"
      and others: "saveChildren X repo format rest path (P1, pack1) = Inr (P', pack')"
    by (auto split: sum.splits)
  from "4.prems"(2) have fv: "firstVisits (dom P \<union> set objectPrototypeNames) child"
    and fvs: "firstVisitsL (dom P \<union> set objectPrototypeNames \<union> set (fullIds child)) rest"
    by simp_all
  from "4.IH"(1) [OF first fv "4.prems"(3)]
  have one: "emitted X P pack (fullPlaces child path) (clonePlaces child path) (fullIds child) P1 pack1" .
  then have grown: "dom P1 = dom P \<union> set (fullIds child)"
    by (simp add: emitted_def)
  have "dom P1 \<union> set objectPrototypeNames =
      dom P \<union> set objectPrototypeNames \<union> set (fullIds child)"
    unfolding grown by blast
  with fvs have fvs1: "firstVisitsL (dom P1 \<union> set objectPrototypeNames) rest"
    by simp
  from firstVisits_distinct(1) [OF fv] "4.prems"(3) grown
  have disjoint1: "dom P1 \<inter> set objectPrototypeNames = {}"
    by auto
  from "4.IH"(2) [OF others fvs1 disjoint1]
  have more: "emitted X P1 pack1 (fullPlacesL rest path) (clonePlacesL rest path) (fullIdsL rest) P' pack'" .
  from emitted_trans [OF one more] show ?case
    by simp
qed

lemma prepareContent_succeeds:
  "(noteFormat = Some ''markdown'' \<longrightarrow> format = ''markdown'') \<Longrightarrow>
     \<exists>content. prepareContent X format n noteFormat = Inr content"
  by (simp add: prepareContent_def)

lemma saveNote_succeeds:
  "emittable repo format n \<Longrightarrow> \<exists>s'. saveNote X repo format n path s = Inr s'"
  "emittableL repo format ns \<Longrightarrow> \<exists>s'. saveChildren X repo format ns path s = Inr s'"
proof (induction n and ns arbitrary: path s and path s rule: fullIds_fullIdsL.induct)
  case (1 c)
  obtain P pack where "s = (P, pack)"
    by (cases s) auto
  then show ?case
    by (simp add: Let_def)
next
  case (2 m children)
  obtain P pack where s: "s = (P, pack)"
    by (cases s) auto
  from "2.prems" obtain nt where found: "repositoryGetNote repo (m_noteId m) = Some nt"
    by auto
  from "2.prems" obtain content
    where content: "prepareContent X format nt (m_format m) = Inr content"
    using prepareContent_succeeds [of "m_format m" format X nt] by auto
  from "2.prems" have "emittableL repo format children"
    by simp
  from "2.IH" [OF this] show ?case
    by (cases "children = []") (simp_all add: s found content Let_def)
next
  case 3
  then show ?case by simp
next
  case (4 child rest)
  from "4.prems" "4.IH"(1) [of path s] obtain s1
    where first: "saveNote X repo format child path s = Inr s1"
    by auto
  from "4.prems" "4.IH"(2) [of path s1] first show ?case
    by auto
qed

subsection \<open>The path a clone stub names\<close>

definition cloneRepo :: repository where
  "cloneRepo =
     [textNote ''r'' ''R'' '''' [''p1'', ''p2''],
      textNote ''p1'' ''P1'' '''' [''x''],
      textNote ''p2'' ''P2'' '''' [''x'', ''p1''],
      textNote ''x'' ''X'' ''hello'' []]"

text \<open>
  C10. Take the manifest of an export and let \<open>saveNote\<close> walk it from any path and
  pack. The walk runs through, and
  \<^item> for every node with full metadata that has a data file name, the path recorded
    under its note is the path of its directory followed by that name, the path of
    its data file in the pack;
  \<^item> for every node with full metadata that has no data file name, the node has a
    directory name, and the path recorded under its note is the path of its directory
    followed by the directory name: the path of the directory entry the pack holds
    for it when it has children in the manifest;
  \<^item> for every clone stub of a note that has a first occurrence (its id is not the
    name of an inherited member), a path is recorded under its note and the pack holds
    the entry of the stub, whose content is "Note is present at " followed by that
    path; the stub of a note without a first occurrence has the text of the inherited
    member in the place of the path;
  \<^item> no two nodes with full metadata are the same note, and the notes with a recorded
    path are the notes with full metadata: the path a stub names is the path recorded
    for the one first occurrence of its note.
\<close>

theorem clone_stub_names_recorded_path:
  assumes "buildManifest X repo branch format = Inr (Some root)"
  shows "\<exists>notePaths pack.
      saveNote X repo format root path (Map.empty, pack0) = Inr (notePaths, pack)
      \<and> (\<forall>(dir, m, children) \<in> set (fullPlaces root path).
            (\<forall>f. m_dataFileName m = Some f \<longrightarrow>
                 notePaths (m_noteId m) = Some (dir @ ''/'' @ f)
                 \<and> (\<exists>content. FileEntry (dir @ ''/'' @ f) (byteLength content) content \<in> set pack))
            \<and> (m_dataFileName m = None \<longrightarrow>
                 (\<exists>f. m_dirFileName m = Some f
                    \<and> notePaths (m_noteId m) = Some (dir @ ''/'' @ f)
                    \<and> (children \<noteq> [] \<longrightarrow> DirectoryEntry (dir @ ''/'' @ f) \<in> set pack))))
      \<and> (\<forall>(dir, c) \<in> set (clonePlaces root path).
            (c_noteId c \<notin> set objectPrototypeNames \<longrightarrow>
               (\<exists>p. notePaths (c_noteId c) = Some p \<and> cloneEntry dir c p \<in> set pack))
            \<and> (c_noteId c \<in> set objectPrototypeNames \<longrightarrow>
                  cloneEntry dir c (builtinText X (c_noteId c)) \<in> set pack))
      \<and> distinct (fullIds root) \<and> dom notePaths = set (fullIds root)"
proof -
  from buildManifest_built [OF assms]
  have fv: "firstVisits (set objectPrototypeNames) root" and wn: "wellNamed root"
    and em: "emittable repo format root"
    by simp_all
  from saveNote_succeeds(1) [OF em, of X path "(Map.empty, pack0)"]
  obtain notePaths pack
    where run: "saveNote X repo format root path (Map.empty, pack0) = Inr (notePaths, pack)"
    by auto
  from saveNote_emitted(1) [OF run] fv
  have rec: "recorded notePaths (fullPlaces root path)"
    and wr: "written pack (fullPlaces root path)"
    and ph: "placeholders X notePaths pack (clonePlaces root path)"
    and keys: "dom notePaths = set (fullIds root)"
    by (simp_all add: emitted_def)
  have fulls: "\<forall>(dir, m, children) \<in> set (fullPlaces root path).
      (\<forall>f. m_dataFileName m = Some f \<longrightarrow>
           notePaths (m_noteId m) = Some (dir @ ''/'' @ f)
           \<and> (\<exists>content. FileEntry (dir @ ''/'' @ f) (byteLength content) content \<in> set pack))
      \<and> (m_dataFileName m = None \<longrightarrow>
           (\<exists>f. m_dirFileName m = Some f
              \<and> notePaths (m_noteId m) = Some (dir @ ''/'' @ f)
              \<and> (children \<noteq> [] \<longrightarrow> DirectoryEntry (dir @ ''/'' @ f) \<in> set pack)))"
  proof (clarify, intro conjI allI impI)
    fix dir m children f
    assume place: "(dir, m, children) \<in> set (fullPlaces root path)"
      and f: "m_dataFileName m = Some f"
    from wellNamed_fullPlaces(1) [OF wn place] f have "f \<noteq> []"
      by auto
    with f have name: "jsString (dataOrDirFileName m) = f" "truthy (m_dataFileName m)"
      "jsString (m_dataFileName m) = f"
      by (simp_all add: jsString_def dataOrDirFileName_def truthy_def)
    with rec place show "notePaths (m_noteId m) = Some (dir @ ''/'' @ f)"
      by (auto simp: recorded_def)
    from wr place name(2)
    have "\<exists>content. FileEntry (dir @ ''/'' @ jsString (m_dataFileName m))
        (byteLength content) content \<in> set pack"
      unfolding written_def by fast
    then show "\<exists>content. FileEntry (dir @ ''/'' @ f) (byteLength content) content \<in> set pack"
      by (simp only: name(3))
  next
    fix dir m children
    assume place: "(dir, m, children) \<in> set (fullPlaces root path)"
      and none: "m_dataFileName m = None"
    from wellNamed_fullPlaces(1) [OF wn place] none obtain f where f: "m_dirFileName m = Some f"
      by auto
    with none have name: "jsString (dataOrDirFileName m) = f" "jsString (m_dirFileName m) = f"
      by (simp_all add: jsString_def dataOrDirFileName_def truthy_def)
    from wr place
    have "children \<noteq> [] \<longrightarrow> DirectoryEntry (dir @ ''/'' @ jsString (m_dirFileName m)) \<in> set pack"
      unfolding written_def by fast
    then have "children \<noteq> [] \<longrightarrow> DirectoryEntry (dir @ ''/'' @ f) \<in> set pack"
      by (simp only: name(2))
    moreover from rec place name(1) have "notePaths (m_noteId m) = Some (dir @ ''/'' @ f)"
      by (auto simp: recorded_def)
    ultimately
    show "\<exists>f. m_dirFileName m = Some f \<and> notePaths (m_noteId m) = Some (dir @ ''/'' @ f)
        \<and> (children \<noteq> [] \<longrightarrow> DirectoryEntry (dir @ ''/'' @ f) \<in> set pack)"
      using f by blast
  qed
  have stubs: "\<forall>(dir, c) \<in> set (clonePlaces root path).
      (c_noteId c \<notin> set objectPrototypeNames \<longrightarrow>
         (\<exists>p. notePaths (c_noteId c) = Some p \<and> cloneEntry dir c p \<in> set pack))
      \<and> (c_noteId c \<in> set objectPrototypeNames \<longrightarrow>
            cloneEntry dir c (builtinText X (c_noteId c)) \<in> set pack)"
    using ph unfolding placeholders_def by (auto split: if_splits)
  from firstVisits_distinct(1) [OF fv] have "distinct (fullIds root)"
    by simp
  with run fulls stubs keys show ?thesis
    by blast
qed

definition cloneManifest :: node where
  "cloneManifest =
     Full ((newMeta ''markdown'' (plainBranch ''r'') (textNote ''r'' ''R'' '''' [''p1'', ''p2'']))
             \<lparr>m_dirFileName := Some ''R''\<rparr>)
       [Full ((newMeta ''markdown'' (plainBranch ''p1'') (textNote ''p1'' ''P1'' '''' [''x'']))
                \<lparr>m_dirFileName := Some ''P1''\<rparr>)
          [Full ((newMeta ''markdown'' (plainBranch ''x'') (textNote ''x'' ''X'' ''hello'' []))
                   \<lparr>m_dataFileName := Some ''X.md''\<rparr>) []],
        Full ((newMeta ''markdown'' (plainBranch ''p2'') (textNote ''p2'' ''P2'' '''' [''x'', ''p1'']))
                \<lparr>m_dirFileName := Some ''P2''\<rparr>)
          [Clone \<lparr> c_noteId = ''x'', c_prefix = None, c_dataFileName = ''X.clone'' \<rparr>,
           Clone \<lparr> c_noteId = ''p1'', c_prefix = None, c_dataFileName = ''P1.clone'' \<rparr>]]"

theorem clone_stub_names_recorded_path_witness:
  "buildManifest plainLibs cloneRepo (plainBranch ''r'') ''markdown'' = Inr (Some cloneManifest)
   \<and> (case saveNote plainLibs cloneRepo ''markdown'' cloneManifest [] (Map.empty, []) of
        Inr (notePaths, pack) \<Rightarrow> Some (notePaths ''p1'', notePaths ''x'', pack)
      | Inl e \<Rightarrow> None)
     = Some (Some ''/R/P1'', Some ''/R/P1/X.md'',
             [DirectoryEntry ''/R'', DirectoryEntry ''/R/P1'',
              FileEntry ''/R/P1/X.md'' 5 ''hello'', DirectoryEntry ''/R/P2'',
              FileEntry ''/R/P2/X.clone'' 29 ''Note is present at /R/P1/X.md'',
              FileEntry ''/R/P2/P1.clone'' 24 ''Note is present at /R/P1''])"
proof -
  have built: "buildManifest plainLibs cloneRepo (plainBranch ''r'') ''markdown'' =
      Inr (Some cloneManifest)"
    by code_simp
  have run: "(case saveNote plainLibs cloneRepo ''markdown'' cloneManifest [] (Map.empty, []) of
        Inr (notePaths, pack) \<Rightarrow> Some (notePaths ''p1'', notePaths ''x'', pack)
      | Inl e \<Rightarrow> None)
     = Some (Some ''/R/P1'', Some ''/R/P1/X.md'',
             [DirectoryEntry ''/R'', DirectoryEntry ''/R/P1'',
              FileEntry ''/R/P1/X.md'' 5 ''hello'', DirectoryEntry ''/R/P2'',
              FileEntry ''/R/P2/X.clone'' 29 ''Note is present at /R/P1/X.md'',
              FileEntry ''/R/P2/P1.clone'' 24 ''Note is present at /R/P1''])"
    by code_simp
  from clone_stub_names_recorded_path [OF built, of "[]" "[]"] built run show ?thesis
    by simp
qed

subsection \<open>Note ids that are names of inherited members\<close>

text \<open>
  What the reference filter does keep: in the manifest of an export, the target of
  every link and of every relation of a full node is \<^verbatim>\<open>in noteIdToMeta\<close>, that is,
  a note with full metadata in the manifest or the name of an inherited member.
\<close>

lemma filterNode_references:
  "(dir, m, cs) \<in> set (fullPlaces (filterNode M n) path) \<Longrightarrow>
     (\<forall>link \<in> set (m_links m). inObject M (l_targetNoteId link))
     \<and> (\<forall>attr \<in> set (m_attributes m). a_type attr = ''relation'' \<longrightarrow> inObject M (a_value attr))"
  "(dir, m, cs) \<in> set (fullPlacesL (map (filterNode M) ns) path) \<Longrightarrow>
     (\<forall>link \<in> set (m_links m). inObject M (l_targetNoteId link))
     \<and> (\<forall>attr \<in> set (m_attributes m). a_type attr = ''relation'' \<longrightarrow> inObject M (a_value attr))"
  by (induction n and ns arbitrary: path and path rule: fullIds_fullIdsL.induct)
    (auto simp: filterMeta_def)

lemma manifest_references:
  assumes "buildManifest X repo branch format = Inr (Some root)"
    and "(dir, m, cs) \<in> set (fullPlaces root path)"
  shows "(\<forall>link \<in> set (m_links m).
            l_targetNoteId link \<in> set (fullIds root) \<union> set objectPrototypeNames)
    \<and> (\<forall>attr \<in> set (m_attributes m). a_type attr = ''relation'' \<longrightarrow>
            a_value attr \<in> set (fullIds root) \<union> set objectPrototypeNames)"
proof -
  from assms(1) obtain n names metas
    where run: "getNote (buildFuel repo) X repo format branch emptyArray Map.empty =
        Inr (Some n, names, metas)"
      and root: "root = filterNode metas n"
    by (auto simp: buildManifest_def split: sum.splits)
  from getNote_built [OF run] have "dom metas = set (fullIds root)"
    by (simp add: builtNode_def root filterNode_fullIds)
  then have "inObject metas k = (k \<in> set (fullIds root) \<union> set objectPrototypeNames)" for k
    by (auto simp: inObject_def)
  with filterNode_references(1) [of dir m cs metas n path] assms(2) show ?thesis
    by (simp add: root)
qed

definition relation :: "string \<Rightarrow> Attribute" where
  "relation target =
     \<lparr> a_type = ''relation'', a_name = ''see'', a_value = target, a_isInheritable = False,
       a_position = 0 \<rparr>"

definition linkTo :: "string \<Rightarrow> Link" where
  "linkTo target = \<lparr> l_type = ''hyper'', l_targetNoteId = target \<rparr>"

definition referencesRepo :: repository where
  "referencesRepo =
     [(textNote ''r'' ''Root'' '''' [''n1''])
        \<lparr> n_ownedAttributes := [relation ''n1'', relation ''gone'', relation ''toString''],
          n_links := [linkTo ''n1'', linkTo ''gone'', linkTo ''constructor''] \<rparr>,
      textNote ''n1'' ''A'' ''hi'' []]"

text \<open>
  C5 at a concrete input. The export holds the notes "r" and "n1". The root has links
  to "n1", "gone" and "constructor" and relations to "n1", "gone" and "toString". The
  filter drops the references to "gone" and keeps those to "constructor" and
  "toString", which are no notes of the export: lines 198-199 test the targets with
  \<^verbatim>\<open>in\<close>, which holds of a plain object for the names it inherits.
\<close>

theorem inherited_name_reference_survives:
  "(case buildManifest X referencesRepo (plainBranch ''r'') ''markdown'' of
      Inr (Some (Full m children)) \<Rightarrow>
        Some (fullIds (Full m children), map l_targetNoteId (m_links m),
              map a_value (m_attributes m))
    | _ \<Rightarrow> None)
   = Some ([''r'', ''n1''], [''n1'', ''constructor''], [''n1'', ''toString''])"
  by code_simp

text \<open>
  A branch whose note is not \<^verbatim>\<open>in noteIdToMeta\<close> yields the node with the full
  metadata of the note, and a branch whose note is yields a clone stub of it; a note
  whose id is no inherited name is registered afterwards.
\<close>

lemma getNote_first_or_clone:
  assumes run: "getNote d X repo format b names metas = Inr (r, names', metas')"
    and found: "repositoryGetNote repo (b_noteId b) = Some n"
    and included: "\<not> hasLabel n ''excludeFromExport''"
  shows "(\<not> inObject metas (n_noteId n) \<longrightarrow>
            (\<exists>m children. r = Some (Full m children) \<and> m_noteId m = n_noteId n))
    \<and> (inObject metas (n_noteId n) \<longrightarrow> (\<exists>c. r = Some (Clone c) \<and> c_noteId c = n_noteId n))
    \<and> inObject metas' (n_noteId n) \<and> dom metas \<subseteq> dom metas'"
proof -
  from run obtain d' where d: "d = Suc d'"
    by (cases d) auto
  have shape: "(\<not> inObject metas (n_noteId n) \<longrightarrow>
        (\<exists>m children. r = Some (Full m children) \<and> m_noteId m = n_noteId n))
      \<and> (inObject metas (n_noteId n) \<longrightarrow> (\<exists>c. r = Some (Clone c) \<and> c_noteId c = n_noteId n))"
  proof (cases "inObject metas (n_noteId n)")
    case True
    with run found included obtain stub names1
      where stub: "cloneStub X b n names = Inr (stub, names1)" and r: "r = Some stub"
      by (auto simp: d getNote_Suc split: sum.splits)
    from cloneStub_node [OF stub] r True show ?thesis
      by auto
  next
    case False
    with run found included obtain meta names1 children
      where named: "namedMeta X format b n names = Inr (meta, names1)"
        and r: "r = Some (Full meta children)"
      by (auto simp: d getNote_Suc split: sum.splits if_splits)
    from namedMeta_result(1) [OF named] r False show ?thesis
      by auto
  qed
  from shape obtain node where r: "r = Some node"
    by (cases "inObject metas (n_noteId n)") auto
  from getNote_built [OF run] r have grown: "dom metas' = dom metas \<union> set (fullIds node)"
    by (simp add: builtNode_def)
  have "inObject metas' (n_noteId n)"
  proof (cases "inObject metas (n_noteId n)")
    case False
    with shape r obtain m children where "node = Full m children" "m_noteId m = n_noteId n"
      by auto
    then have "n_noteId n \<in> set (fullIds node)"
      by simp
    with grown show ?thesis
      by (auto simp: inObject_def)
  next
    case True
    with grown show ?thesis
      by (auto simp: inObject_def)
  qed
  with grown shape show ?thesis
    by blast
qed

definition constructorRepo :: repository where
  "constructorRepo =
     [textNote ''r'' ''R'' '''' [''p1'', ''p2''],
      textNote ''p1'' ''P1'' '''' [''constructor''],
      textNote ''p2'' ''P2'' '''' [''constructor''],
      textNote ''constructor'' ''X'' ''hello'' []]"

text \<open>
  C7 at a concrete input. The note with the id "constructor" is reached through the
  branch under "P1" and then through the branch under "P2". The manifest has no node
  with the full metadata of the note: \<^verbatim>\<open>note.noteId in noteIdToMeta\<close> (line 75) holds
  at the first visit already, by inheritance, so both branches yield a clone stub.
  The content "hello" of the note is not in the archive, and each stub names the text
  of the inherited member in the place of a path. (The size of each entry is the
  number of bytes of its content.)
\<close>

theorem inherited_name_note_has_no_full_node:
  "(case buildManifest plainLibs constructorRepo (plainBranch ''r'') ''markdown'' of
      Inr (Some root) \<Rightarrow>
        Some (fullIds root,
              map (\<lambda>(dir, c). (dir, c_noteId c, c_dataFileName c)) (clonePlaces root []))
    | _ \<Rightarrow> None)
   = Some ([''r'', ''p1'', ''p2''],
           [(''/R/P1'', ''constructor'', ''X.clone''), (''/R/P2'', ''constructor'', ''X.clone_1'')])
   \<and> (case exportToTar plainLibs constructorRepo (plainBranch ''r'') ''markdown'' of
        Inr out \<Rightarrow> Some (o_pack out)
      | Inl e \<Rightarrow> None)
     = Some [FileEntry ''!!!meta.json'' 0 [],
             DirectoryEntry ''/R'', DirectoryEntry ''/R/P1'',
             FileEntry ''/R/P1/X.clone'' 54
               ''Note is present at function Object() { [native code] }'',
             DirectoryEntry ''/R/P2'',
             FileEntry ''/R/P2/X.clone_1'' 54
               ''Note is present at function Object() { [native code] }'']"
  by code_simp

end
